theory Spec2Isabelle
  imports Complex_Main "HOL-Library.AList" "HOL-Library.Multiset"
begin

section \<open>Wozz: resource quantities, cost deltas and waste findings\<close>

text \<open>
  A shallow embedding of the three Python programs of the repository:
  \<^item> \<^verbatim>\<open>action/audit_pr.py\<close> (the pull-request cost linter): \<open>parse_resource_value\<close>,
    \<open>calculate_annual_cost\<close>, \<open>extract_resources_from_yaml\<close> and the per-resource
    comparison inside \<open>analyze_pr_costs\<close>;
  \<^item> \<^verbatim>\<open>scripts/generate-report.py\<close> (the audit report): \<open>parse_cpu\<close>, \<open>parse_memory\<close>,
    \<open>calculate_memory_waste\<close>, \<open>calculate_cpu_waste\<close>, the loop of \<open>analyze_pods\<close>,
    \<open>analyze_load_balancers\<close> and \<open>aggregate_findings\<close>;
  \<^item> \<^verbatim>\<open>scripts/analyze-audit.py\<close>: its own \<open>parse_cpu\<close> and \<open>parse_memory\<close>.

  Conventions of the model.
  \<^item> A Python \<open>float\<close> is modelled by the real number it denotes, and products,
    differences and comparisons are those of the reals: rounding to binary64, and the
    overflow and underflow of an arithmetic result, are not modelled, so a decision
    taken exactly at a rounding boundary can differ from the program's. Where a claim depends on the order of float additions
    (\<open>sum()\<close> in the aggregation) the summation is a parameter. The texts that
    \<open>float()\<close> turns into an infinity or a NaN (the spellings \<open>inf\<close>, \<open>infinity\<close>, \<open>nan\<close>, and
    numbers too large for binary64) have no real value; the model stops such a run with
    the outcome \<open>NonFinite\<close>, which is not a Python exception.
  \<^item> Text is ASCII: a \<open>string\<close> is a list of 8-bit characters.
  \<^item> A raised exception is the left summand of a sum type; a dictionary is an
    association list in insertion order, read with \<open>map_of\<close>.
\<close>

subsection \<open>Outcomes\<close>

datatype exn = ValueError | KeyError | NonFinite

definition bind :: "exn + 'a \<Rightarrow> ('a \<Rightarrow> exn + 'b) \<Rightarrow> exn + 'b" where
  "bind m f = (case m of Inl e \<Rightarrow> Inl e | Inr x \<Rightarrow> f x)"

subsection \<open>Python string primitives\<close>

text \<open>The characters \<open>str.strip()\<close> and the pattern \<open>\s\<close> treat as white space (tab, line
  feed, vertical tab, form feed, carriage return, the four separators 0x1C..0x1F and the
  blank).\<close>

definition is_space :: "char \<Rightarrow> bool" where
  "is_space c = (c \<in> set [CHR 0x09, CHR 0x0A, CHR 0x0B, CHR 0x0C, CHR 0x0D,
                           CHR 0x1C, CHR 0x1D, CHR 0x1E, CHR 0x1F, CHR '' ''])"

definition lstrip :: "string \<Rightarrow> string" where
  "lstrip s = dropWhile is_space s"

definition rstrip :: "string \<Rightarrow> string" where
  "rstrip s = rev (dropWhile is_space (rev s))"

definition strip :: "string \<Rightarrow> string" where
  "strip s = rstrip (lstrip s)"

text \<open>\<open>s.endswith(suf)\<close>, and the slice \<open>s[:-n]\<close> for \<open>n > 0\<close>.\<close>

definition endswith :: "string \<Rightarrow> string \<Rightarrow> bool" where
  "endswith s suf = (take (length suf) (rev s) = rev suf)"

definition drop_last :: "nat \<Rightarrow> string \<Rightarrow> string" where
  "drop_last n s = take (length s - n) s"

definition is_digit :: "char \<Rightarrow> bool" where
  "is_digit c = (48 \<le> (of_char c :: nat) \<and> (of_char c :: nat) \<le> 57)"

definition digit_val :: "char \<Rightarrow> nat" where
  "digit_val c = of_char c - 48"

text \<open>The value of a string of decimal digits, and \<open>int(ds)\<close> for such a string: CPython
  (3.11, and the security releases of the earlier versions) refuses a text of more than
  \<open>sys.get_int_max_str_digits()\<close> digits, 4300 unless configured otherwise, with
  \<open>ValueError\<close>; leading zeros count.\<close>

definition int_of_digits :: "string \<Rightarrow> nat" where
  "int_of_digits ds = foldl (\<lambda>a c. 10 * a + digit_val c) 0 ds"

definition int_max_str_digits :: nat where
  "int_max_str_digits = 4300"

definition py_int :: "string \<Rightarrow> exn + int" where
  "py_int ds = (if length ds > int_max_str_digits then Inl ValueError
                else Inr (int (int_of_digits ds)))"

subsection \<open>The built-in \<open>float()\<close> on strings\<close>

text \<open>
  \<open>float()\<close> strips tab, line feed, vertical tab, form feed, carriage return and the
  blank from both ends (not the separators 0x1C..0x1F, which \<open>str.strip()\<close> removes).
  Python's grammar for what is left:
  \<^verbatim>\<open>
  floatvalue  ::= [sign] (floatnumber | "inf" | "infinity" | "nan")   (case-insensitive)
  floatnumber ::= number [exponent]
  number      ::= [digitpart] "." digitpart | digitpart ["."]
  exponent    ::= ("e" | "E") [sign] digitpart
  digitpart   ::= digit (["_"] digit)*
  \<close>
  Anything else raises \<open>ValueError\<close>. \<open>digitpart\<close> returns the digits read (without the
  underscores) and the rest of the text; no digits read means the text does not start
  with a digit. A number whose magnitude is at least \<open>2^1024 - 2^970\<close> rounds to an
  infinity.
\<close>

definition is_float_space :: "char \<Rightarrow> bool" where
  "is_float_space c = (c \<in> set [CHR 0x09, CHR 0x0A, CHR 0x0B, CHR 0x0C, CHR 0x0D, CHR '' ''])"

definition float_strip :: "string \<Rightarrow> string" where
  "float_strip s = rev (dropWhile is_float_space (rev (dropWhile is_float_space s)))"

fun digitpart :: "string \<Rightarrow> string \<times> string" where
  "digitpart [] = ([], [])"
| "digitpart (c # cs) =
     (if \<not> is_digit c then ([], c # cs)
      else (case cs of
              u # d # r \<Rightarrow>
                if u = CHR ''_'' \<and> is_digit d
                then (case digitpart (d # r) of (ds, rest) \<Rightarrow> (c # ds, rest))
                else (case digitpart cs of (ds, rest) \<Rightarrow> (c # ds, rest))
            | _ \<Rightarrow> (case digitpart cs of (ds, rest) \<Rightarrow> (c # ds, rest))))"

definition take_sign :: "string \<Rightarrow> bool \<times> string" where
  "take_sign s = (case s of
       c # r \<Rightarrow> if c = CHR ''-'' then (True, r)
                else if c = CHR ''+'' then (False, r) else (False, s)
     | [] \<Rightarrow> (False, []))"

definition lower_char :: "char \<Rightarrow> char" where
  "lower_char c = (case map_of (zip ''ABCDEFGHIJKLMNOPQRSTUVWXYZ''
                                    ''abcdefghijklmnopqrstuvwxyz'') c of
                     Some d \<Rightarrow> d | None \<Rightarrow> c)"

definition lower :: "string \<Rightarrow> string" where
  "lower s = map lower_char s"

definition float_exponent :: "string \<Rightarrow> int option" where
  "float_exponent s = (case s of
       [] \<Rightarrow> Some 0
     | c # r \<Rightarrow>
         if c = CHR ''e'' \<or> c = CHR ''E'' then
           (case take_sign r of (neg, r') \<Rightarrow>
              (case digitpart r' of (ds, rest) \<Rightarrow>
                 if ds = [] \<or> rest \<noteq> [] then None
                 else Some (if neg then - int (int_of_digits ds) else int (int_of_digits ds))))
         else None)"

definition float_magnitude :: "string \<Rightarrow> real option" where
  "float_magnitude s =
     (case digitpart s of (ip, r1) \<Rightarrow>
        (case (case r1 of
                 c # r \<Rightarrow> if c = CHR ''.'' then digitpart r else ([], r1)
               | [] \<Rightarrow> ([], r1)) of
           (fp, r2) \<Rightarrow>
             if ip = [] \<and> fp = [] then None
             else (case float_exponent r2 of
                     None \<Rightarrow> None
                   | Some e \<Rightarrow>
                       Some ((real (int_of_digits ip) + real (int_of_digits fp) / 10 ^ length fp)
                             * (if 0 \<le> e then 10 ^ nat e else 1 / 10 ^ nat (- e))))))"

definition py_float :: "string \<Rightarrow> exn + real" where
  "py_float s =
     (case take_sign (float_strip s) of (neg, u) \<Rightarrow>
        if lower u \<in> set [''inf'', ''infinity'', ''nan''] then Inl NonFinite
        else (case float_magnitude u of
                None \<Rightarrow> Inl ValueError
              | Some m \<Rightarrow> if m \<ge> 2 ^ 1024 - 2 ^ 970 then Inl NonFinite
                          else Inr (if neg then - m else m)))"

subsection \<open>Quantity parsers\<close>

text \<open>\<^verbatim>\<open>audit_pr.py\<close>, \<open>parse_resource_value\<close>: memory in "GB" and CPU in cores. The
  \<open>elif\<close> chain is kept in the source's order.\<close>

definition parse_resource_value :: "string \<Rightarrow> string \<Rightarrow> exn + real" where
  "parse_resource_value value resource_type =
     (if value = [] then Inr 0
      else let v = strip value in
        if resource_type = ''memory'' then
          (if endswith v ''Gi'' then bind (py_float (drop_last 2 v)) (\<lambda>x. Inr x)
           else if endswith v ''G'' then bind (py_float (drop_last 1 v)) (\<lambda>x. Inr x)
           else if endswith v ''Mi'' then bind (py_float (drop_last 2 v)) (\<lambda>x. Inr (x / 1024))
           else if endswith v ''M'' then bind (py_float (drop_last 1 v)) (\<lambda>x. Inr (x / 1024))
           else if endswith v ''Ki'' then
             bind (py_float (drop_last 2 v)) (\<lambda>x. Inr (x / (1024 * 1024)))
           else if endswith v ''K'' then
             bind (py_float (drop_last 1 v)) (\<lambda>x. Inr (x / (1024 * 1024)))
           else bind (py_float v) (\<lambda>x. Inr (x / (1024 * 1024 * 1024))))
        else if resource_type = ''cpu'' then
          (if endswith v ''m'' then bind (py_float (drop_last 1 v)) (\<lambda>x. Inr (x / 1000))
           else bind (py_float v) (\<lambda>x. Inr x))
        else Inr 0)"

text \<open>\<^verbatim>\<open>generate-report.py\<close>, \<open>parse_cpu\<close> and \<open>parse_memory\<close>. The dictionary \<open>units\<close> is
  iterated in insertion order; the first unit the text ends with decides.\<close>

definition parse_cpu :: "string \<Rightarrow> exn + real" where
  "parse_cpu cpu_str =
     (if cpu_str = [] then Inr 0
      else let s = strip cpu_str in
        if endswith s ''m'' then bind (py_float (drop_last 1 s)) (\<lambda>x. Inr (x / 1000))
        else bind (py_float s) (\<lambda>x. Inr x))"

definition units :: "(string \<times> real) list" where
  "units = [(''Ki'', 1024 / 1024 ^ 3), (''Mi'', 1024 ^ 2 / 1024 ^ 3), (''Gi'', 1),
            (''Ti'', 1024 ^ 4 / 1024 ^ 3), (''K'', 1000 / 1000 ^ 3),
            (''M'', 1000 ^ 2 / 1000 ^ 3), (''G'', 1), (''T'', 1000 ^ 4 / 1000 ^ 3)]"

definition parse_memory :: "string \<Rightarrow> exn + real" where
  "parse_memory mem_str =
     (if mem_str = [] then Inr 0
      else let s = strip mem_str in
        (case find (\<lambda>(unit, multiplier). endswith s unit) units of
           Some (unit, multiplier) \<Rightarrow>
             bind (py_float (drop_last (length unit) s)) (\<lambda>x. Inr (x * multiplier))
         | None \<Rightarrow> bind (py_float s) (\<lambda>x. Inr (x / 1024 ^ 3))))"

text \<open>\<^verbatim>\<open>analyze-audit.py\<close>: CPU in millicores, memory in bytes, no stripping.\<close>

definition audit_parse_cpu :: "string \<Rightarrow> exn + real" where
  "audit_parse_cpu cpu_str =
     (if cpu_str = [] then Inr 0
      else if endswith cpu_str ''m'' then bind (py_float (drop_last 1 cpu_str)) (\<lambda>x. Inr x)
      else bind (py_float cpu_str) (\<lambda>x. Inr (x * 1000)))"

definition audit_units :: "(string \<times> real) list" where
  "audit_units = [(''Ki'', 1024), (''Mi'', 1024 ^ 2), (''Gi'', 1024 ^ 3), (''Ti'', 1024 ^ 4),
                  (''K'', 1000), (''M'', 1000 ^ 2), (''G'', 1000 ^ 3), (''T'', 1000 ^ 4)]"

definition audit_parse_memory :: "string \<Rightarrow> exn + real" where
  "audit_parse_memory mem_str =
     (if mem_str = [] then Inr 0
      else (case find (\<lambda>(unit, multiplier). endswith mem_str unit) audit_units of
              Some (unit, multiplier) \<Rightarrow>
                bind (py_float (drop_last (length unit) mem_str)) (\<lambda>x. Inr (x * multiplier))
            | None \<Rightarrow> bind (py_float mem_str) (\<lambda>x. Inr x)))"

subsection \<open>Regular expressions as \<open>re.search\<close> runs them\<close>

text \<open>
  The linter reads manifests with regular expressions. The patterns are kept as data and
  run by a backtracking matcher with Python's priorities: \<open>rmatch r i s\<close> lists every way
  \<open>r\<close> can match a prefix of the remaining text \<open>s\<close> (which starts at index \<open>i\<close> of the
  whole text), most preferred first, as (end index, remaining text, text of group 1).
  A greedy star prefers one more iteration, a lazy star prefers to stop, an alternative
  prefers its left branch. Every starred sub-pattern of the source consumes at least one
  character per iteration; an iteration that consumes nothing is not repeated.
  \<open>Bos\<close> is \<open>^\<close> without \<open>re.MULTILINE\<close>, the start of the text; \<open>Cls\<close> is a character
  class. The classes \<open>\s\<close> and \<open>\d\<close> are those of ASCII text.
\<close>

datatype regex =
    Lit string
  | Cls "char \<Rightarrow> bool"
  | Seq regex regex
  | Alt regex regex
  | Star regex
  | StarLazy regex
  | Opt regex
  | Grp regex
  | Bos

type_synonym mres = "nat \<times> string \<times> string option"

definition keep_group :: "string option \<Rightarrow> mres \<Rightarrow> mres" where
  "keep_group g m = (case m of (k, r, h) \<Rightarrow> (k, r, if h = None then g else h))"

function rmatch :: "regex \<Rightarrow> nat \<Rightarrow> string \<Rightarrow> mres list" where
  "rmatch (Lit l) i s =
     (if take (length l) s = l then [(i + length l, drop (length l) s, None)] else [])"
| "rmatch (Cls p) i s =
     (case s of c # r \<Rightarrow> if p c then [(Suc i, r, None)] else [] | [] \<Rightarrow> [])"
| "rmatch (Seq a b) i s =
     concat (map (\<lambda>m. map (keep_group (snd (snd m))) (rmatch b (fst m) (fst (snd m))))
                 (rmatch a i s))"
| "rmatch (Alt a b) i s = rmatch a i s @ rmatch b i s"
| "rmatch (Opt a) i s = rmatch a i s @ [(i, s, None)]"
| "rmatch (Star a) i s =
     concat (map (\<lambda>m. if length (fst (snd m)) < length s
                        then map (keep_group (snd (snd m)))
                                 (rmatch (Star a) (fst m) (fst (snd m)))
                        else [])
                 (rmatch a i s))
     @ [(i, s, None)]"
| "rmatch (StarLazy a) i s =
     (i, s, None) #
     concat (map (\<lambda>m. if length (fst (snd m)) < length s
                        then map (keep_group (snd (snd m)))
                                 (rmatch (StarLazy a) (fst m) (fst (snd m)))
                        else [])
                 (rmatch a i s))"
| "rmatch (Grp a) i s =
     map (\<lambda>m. (fst m, fst (snd m), Some (take (fst m - i) s))) (rmatch a i s)"
| "rmatch Bos i s = (if i = 0 then [(i, s, None)] else [])"
  by pat_completeness auto
termination
  by (relation "measures [\<lambda>(r, i, s). size r, \<lambda>(r, i, s). length s]") auto

text \<open>\<open>re.search\<close>: the first start position, from the left, at which the pattern
  matches, with the most preferred match there. \<open>re_search\<close> returns \<open>m.group(1)\<close>; group 1
  takes part in every match of the patterns below.\<close>

fun search_from :: "regex \<Rightarrow> nat \<Rightarrow> string \<Rightarrow> string option option" where
  "search_from r i s =
     (case rmatch r i s of
        m # _ \<Rightarrow> Some (snd (snd m))
      | [] \<Rightarrow> (case s of [] \<Rightarrow> None | _ # t \<Rightarrow> search_from r (Suc i) t))"

definition re_search :: "regex \<Rightarrow> string \<Rightarrow> string option" where
  "re_search r s = (case search_from r 0 s of Some (Some g) \<Rightarrow> Some g | _ \<Rightarrow> None)"

fun seqs :: "regex list \<Rightarrow> regex" where
  "seqs [] = Lit []"
| "seqs [r] = r"
| "seqs (r # rs) = Seq r (seqs rs)"

definition plus :: "regex \<Rightarrow> regex" where
  "plus r = Seq r (Star r)"

definition nl :: string where
  "nl = [CHR 0x0A]"

definition ws :: regex where
  "ws = Cls is_space"

definition quote :: regex where
  "quote = Cls (\<lambda>c. c = CHR 0x22 \<or> c = CHR 0x27)"

definition is_alpha :: "char \<Rightarrow> bool" where
  "is_alpha c = ((65 \<le> (of_char c :: nat) \<and> (of_char c :: nat) \<le> 90)
               \<or> (97 \<le> (of_char c :: nat) \<and> (of_char c :: nat) \<le> 122))"

text \<open>The patterns of \<open>extract_resources_from_yaml\<close>:
  \<^verbatim>\<open>
  memory_pattern       requests:\s*\n(?:[^\n]*\n)*?\s*memory:\s*["\']?([^"\'\n]+)["\']?
  cpu_pattern          requests:\s*\n(?:[^\n]*\n)*?\s*cpu:\s*["\']?([^"\'\n]+)["\']?
  name_pattern         metadata:\s*\n\s*name:\s*["\']?([a-zA-Z0-9-]+)["\']?
  kind_pattern         kind:\s*([A-Za-z]+)
  replicas_pattern     (?:^|\n)replicas:\s*(\d+)
  min_replicas_pattern minReplicas:\s*(\d+)
  max_replicas_pattern maxReplicas:\s*(\d+)
  \<close>\<close>

definition requests_pattern :: "string \<Rightarrow> regex" where
  "requests_pattern key = seqs [Lit ''requests:'', Star ws, Lit nl,
      StarLazy (Seq (Star (Cls (\<lambda>c. c \<noteq> CHR 0x0A))) (Lit nl)),
      Star ws, Lit key, Star ws, Opt quote,
      Grp (plus (Cls (\<lambda>c. c \<noteq> CHR 0x22 \<and> c \<noteq> CHR 0x27 \<and> c \<noteq> CHR 0x0A))),
      Opt quote]"

definition memory_pattern :: regex where
  "memory_pattern = requests_pattern ''memory:''"

definition cpu_pattern :: regex where
  "cpu_pattern = requests_pattern ''cpu:''"

definition name_pattern :: regex where
  "name_pattern = seqs [Lit ''metadata:'', Star ws, Lit nl, Star ws, Lit ''name:'', Star ws,
      Opt quote, Grp (plus (Cls (\<lambda>c. is_alpha c \<or> is_digit c \<or> c = CHR ''-''))), Opt quote]"

definition kind_pattern :: regex where
  "kind_pattern = seqs [Lit ''kind:'', Star ws, Grp (plus (Cls is_alpha))]"

definition replicas_pattern :: regex where
  "replicas_pattern =
     seqs [Alt Bos (Lit nl), Lit ''replicas:'', Star ws, Grp (plus (Cls is_digit))]"

definition min_replicas_pattern :: regex where
  "min_replicas_pattern = seqs [Lit ''minReplicas:'', Star ws, Grp (plus (Cls is_digit))]"

definition max_replicas_pattern :: regex where
  "max_replicas_pattern = seqs [Lit ''maxReplicas:'', Star ws, Grp (plus (Cls is_digit))]"

subsection \<open>The linter's extraction of resources from a manifest\<close>

text \<open>\<open>yaml_content.split(sep)\<close> for a non-empty separator, and \<open>str(n)\<close> for a natural
  number.\<close>

function split_acc :: "string \<Rightarrow> string \<Rightarrow> string \<Rightarrow> string list" where
  "split_acc sep acc [] = [rev acc]"
| "split_acc sep acc (c # cs) =
     (if sep \<noteq> [] \<and> take (length sep) (c # cs) = sep
      then rev acc # split_acc sep [] (drop (length sep) (c # cs))
      else split_acc sep (c # acc) cs)"
  by pat_completeness auto
termination
  by (relation "measure (\<lambda>(sep, acc, s). length s)") auto

definition py_split :: "string \<Rightarrow> string \<Rightarrow> string list" where
  "py_split s sep = split_acc sep [] s"

fun show_nat :: "nat \<Rightarrow> string" where
  "show_nat n = (if n < 10 then [''0123456789'' ! n]
                 else show_nat (n div 10) @ [''0123456789'' ! (n mod 10)])"

record resource_spec =
  memory :: real
  cpu :: real
  min_replicas :: int
  max_replicas :: int
  kind :: string

type_synonym snapshot = "(string \<times> resource_spec) list"

text \<open>The replica range of a document (the block "Extract replica information"): for
  an autoscaler both searches come before the two conversions, minimum first.\<close>

definition replica_range :: "string \<Rightarrow> string \<Rightarrow> exn + int \<times> int" where
  "replica_range resource_kind document =
     (if resource_kind = ''HorizontalPodAutoscaler'' then
        bind (case re_search min_replicas_pattern document of
                Some g \<Rightarrow> py_int g | None \<Rightarrow> Inr 1)
          (\<lambda>min_replicas.
        bind (case re_search max_replicas_pattern document of
                Some g \<Rightarrow> py_int g | None \<Rightarrow> Inr 1)
          (\<lambda>max_replicas. Inr (min_replicas, max_replicas)))
      else
        (case re_search replicas_pattern document of
           Some g \<Rightarrow> bind (py_int g) (\<lambda>replicas. Inr (replicas, replicas))
         | None \<Rightarrow> Inr (1, 1)))"

text \<open>The body of the loop over the documents. \<open>resources[key] = ...\<close> on an
  insertion-ordered dictionary is \<open>AList.update\<close>. The statements that can raise are, in
  the source's order, the two calls of \<open>parse_resource_value\<close> (memory first) and the
  calls of \<open>int()\<close> on the matched replica counts.\<close>

definition extract_document ::
    "string \<Rightarrow> nat \<Rightarrow> string \<Rightarrow> snapshot \<Rightarrow> exn + snapshot" where
  "extract_document file_path doc_index document resources =
     (if strip document = [] then Inr resources
      else
        let resource_name = (case re_search name_pattern document of
                               Some g \<Rightarrow> g | None \<Rightarrow> ''resource-'' @ show_nat doc_index);
            resource_kind = (case re_search kind_pattern document of
                               Some g \<Rightarrow> g | None \<Rightarrow> ''Unknown'');
            memory_match = re_search memory_pattern document;
            cpu_match = re_search cpu_pattern document
        in if memory_match \<noteq> None \<or> cpu_match \<noteq> None then
             bind (case memory_match of
                     Some g \<Rightarrow> parse_resource_value g ''memory'' | None \<Rightarrow> Inr 0)
               (\<lambda>memory_gb.
             bind (case cpu_match of
                     Some g \<Rightarrow> parse_resource_value g ''cpu'' | None \<Rightarrow> Inr 0)
               (\<lambda>cpu_cores.
             bind (replica_range resource_kind document)
               (\<lambda>replicas.
                Inr (AList.update (resource_name @ ''@'' @ file_path)
                       \<lparr>memory = memory_gb, cpu = cpu_cores,
                        min_replicas = fst replicas, max_replicas = snd replicas,
                        kind = resource_kind\<rparr>
                       resources))))
           else Inr resources)"

fun extract_loop :: "string \<Rightarrow> nat \<Rightarrow> string list \<Rightarrow> snapshot \<Rightarrow> exn + snapshot" where
  "extract_loop file_path doc_index [] resources = Inr resources"
| "extract_loop file_path doc_index (document # documents) resources =
     bind (extract_document file_path doc_index document resources)
          (extract_loop file_path (Suc doc_index) documents)"

definition extract_resources_from_yaml :: "string \<Rightarrow> string \<Rightarrow> exn + snapshot" where
  "extract_resources_from_yaml yaml_content file_path =
     extract_loop file_path 0 (py_split yaml_content (nl @ ''---'' @ nl)) []"

subsection \<open>The linter's cost model and comparison\<close>

definition MEMORY_COST_PER_GB :: real where
  "MEMORY_COST_PER_GB = 4"

definition CPU_COST_PER_CORE :: real where
  "CPU_COST_PER_CORE = 20"

definition calculate_annual_cost :: "real \<Rightarrow> real \<Rightarrow> real" where
  "calculate_annual_cost memory_gb cpu_cores =
     (memory_gb * MEMORY_COST_PER_GB + cpu_cores * CPU_COST_PER_CORE) * 12"

record cost_change =
  cc_resource :: string
  cc_file :: string
  old_memory :: real
  new_memory :: real
  old_cpu :: real
  new_cpu :: real
  old_min_replicas :: int
  old_max_replicas :: int
  new_min_replicas :: int
  new_max_replicas :: int
  min_cost_diff :: real
  max_cost_diff :: real
  has_range :: bool
  cc_kind :: string

text \<open>The default of \<open>old_resources.get(resource_name, {...})\<close>: the resource is absent on
  that side.\<close>

definition absent_resource :: resource_spec where
  "absent_resource = \<lparr>memory = 0, cpu = 0, min_replicas = 1, max_replicas = 1,
                       kind = ''Unknown''\<rparr>"

definition snapshot_get :: "snapshot \<Rightarrow> string \<Rightarrow> resource_spec" where
  "snapshot_get resources name =
     (case map_of resources name of Some r \<Rightarrow> r | None \<Rightarrow> absent_resource)"

text \<open>The body of the loop of \<open>analyze_pr_costs\<close> over \<open>all_resource_names\<close>, for one
  name: \<open>None\<close> when the change is not reported.\<close>

definition compare_resource ::
    "string \<Rightarrow> string \<Rightarrow> resource_spec \<Rightarrow> resource_spec \<Rightarrow> cost_change option" where
  "compare_resource file_path resource_name old_res new_res =
     (let old_cost_per_pod = calculate_annual_cost (memory old_res) (cpu old_res);
          new_cost_per_pod = calculate_annual_cost (memory new_res) (cpu new_res);
          old_min_cost = old_cost_per_pod * real_of_int (min_replicas old_res);
          old_max_cost = old_cost_per_pod * real_of_int (max_replicas old_res);
          new_min_cost = new_cost_per_pod * real_of_int (min_replicas new_res);
          new_max_cost = new_cost_per_pod * real_of_int (max_replicas new_res);
          min_diff = new_min_cost - old_min_cost;
          max_diff = new_max_cost - old_max_cost
      in if \<bar>max_diff\<bar> > 1 then
           Some \<lparr>cc_resource = takeWhile (\<lambda>c. c \<noteq> CHR ''@'') resource_name,
                 cc_file = file_path,
                 old_memory = memory old_res, new_memory = memory new_res,
                 old_cpu = cpu old_res, new_cpu = cpu new_res,
                 old_min_replicas = min_replicas old_res,
                 old_max_replicas = max_replicas old_res,
                 new_min_replicas = min_replicas new_res,
                 new_max_replicas = max_replicas new_res,
                 min_cost_diff = min_diff, max_cost_diff = max_diff,
                 has_range = (min_replicas new_res \<noteq> max_replicas new_res),
                 cc_kind = kind new_res\<rparr>
         else None)"

text \<open>\<open>all_resource_names\<close> is the union of the two key sets. \<open>diff_entry\<close> is what the
  loop appends for one identity; \<open>diff\<close> lists the entries in the order the set is
  iterated, which Python leaves open and the model takes as \<open>names\<close>.\<close>

definition all_resource_names :: "snapshot \<Rightarrow> snapshot \<Rightarrow> string set" where
  "all_resource_names old_resources new_resources =
     fst ` set old_resources \<union> fst ` set new_resources"

definition diff_entry :: "string \<Rightarrow> snapshot \<Rightarrow> snapshot \<Rightarrow> string \<Rightarrow> cost_change option" where
  "diff_entry file_path old_resources new_resources resource_name =
     (if resource_name \<in> all_resource_names old_resources new_resources
      then compare_resource file_path resource_name
             (snapshot_get old_resources resource_name)
             (snapshot_get new_resources resource_name)
      else None)"

definition diff :: "string \<Rightarrow> snapshot \<Rightarrow> snapshot \<Rightarrow> string list \<Rightarrow> cost_change list" where
  "diff file_path old_resources new_resources names =
     List.map_filter (diff_entry file_path old_resources new_resources) names"

subsection \<open>The report's findings\<close>

text \<open>
  A finding is a Python dictionary; the record has one optional field per key the
  programs write or read (\<open>None\<close>: the key is absent). The values under \<open>details\<close> are
  display strings; a formatted number \<^verbatim>\<open>f"{x:.2f}Gi"\<close> is kept as \<open>Fmt 2 x ''Gi''\<close>, a list of
  dictionaries as \<open>Items\<close>.
\<close>

type_synonym dict = "(string \<times> string) list"

definition dict_get :: "dict \<Rightarrow> string \<Rightarrow> string \<Rightarrow> string" where
  "dict_get d k dflt = (case map_of d k of Some v \<Rightarrow> v | None \<Rightarrow> dflt)"

datatype dval = Fmt nat real string | Txt string | Items "dict list"

record finding =
  f_type :: "string option"
  f_severity :: "string option"
  f_pod :: "string option"
  f_namespace :: "string option"
  f_container :: "string option"
  f_monthlySavings :: "real option"
  f_podsAffected :: "nat option"
  f_resourcesAffected :: "nat option"
  f_details :: "(string \<times> dval) list"

subsection \<open>The report's waste rules\<close>

definition MEMORY_COST_PER_GB_MONTH :: real where
  "MEMORY_COST_PER_GB_MONTH = 7.20"

definition CPU_COST_PER_VCPU_MONTH :: real where
  "CPU_COST_PER_VCPU_MONTH = 21.60"

definition LB_COST_PER_MONTH :: real where
  "LB_COST_PER_MONTH = 20.00"

definition calculate_memory_waste :: "real \<Rightarrow> real \<Rightarrow> real option \<Rightarrow> real" where
  "calculate_memory_waste request_gb limit_gb usage_gb =
     (if limit_gb = 0 \<or> request_gb = 0 then 0
      else if limit_gb > request_gb * 3
      then (limit_gb - request_gb * 1.5) * MEMORY_COST_PER_GB_MONTH
      else (case usage_gb of
              Some u \<Rightarrow> if u > 0 \<and> u < request_gb * 0.2
                        then max 0 (request_gb - u * 1.5) * MEMORY_COST_PER_GB_MONTH
                        else 0
            | None \<Rightarrow> 0))"

definition calculate_cpu_waste :: "real \<Rightarrow> real \<Rightarrow> real option \<Rightarrow> real" where
  "calculate_cpu_waste request_vcpu limit_vcpu usage_vcpu =
     (if limit_vcpu = 0 \<or> request_vcpu = 0 then 0
      else if limit_vcpu > request_vcpu * 4
      then (limit_vcpu - request_vcpu * 1.5) * CPU_COST_PER_VCPU_MONTH
      else (case usage_vcpu of
              Some u \<Rightarrow> if u > 0 \<and> u < request_vcpu * 0.2
                        then max 0 (request_vcpu - u * 1.5) * CPU_COST_PER_VCPU_MONTH
                        else 0
            | None \<Rightarrow> 0))"

subsection \<open>The report's pod analysis\<close>

text \<open>
  The input of \<open>analyze_pods\<close> after the files are read: the pods of
  \<^verbatim>\<open>pods_data['items']\<close> and the table \<open>usage_data\<close> that \<open>load_usage_data\<close> returns. A
  container's \<open>c_requests\<close> is \<^verbatim>\<open>resources.get('requests', {})\<close>: the empty dictionary
  when the block is absent; likewise \<open>c_limits\<close>.
\<close>

record container =
  c_name :: "string option"
  c_requests :: dict
  c_limits :: dict

record pod =
  p_name :: "string option"
  p_namespace :: "string option"
  p_containers :: "container list"

record usage =
  u_cpu :: real
  u_memory :: real

text \<open>Python's truth value of an optional float: neither \<open>None\<close> nor zero.\<close>

definition truthy :: "real option \<Rightarrow> bool" where
  "truthy u = (case u of Some x \<Rightarrow> x \<noteq> 0 | None \<Rightarrow> False)"

text \<open>The part of the loop body after the four quantities are parsed: the findings the
  container appends, in order. (The running totals and counters the source also updates
  are never read.)\<close>

definition container_findings ::
    "string \<Rightarrow> string \<Rightarrow> string \<Rightarrow> real \<Rightarrow> real \<Rightarrow> real \<Rightarrow> real
     \<Rightarrow> real option \<Rightarrow> real option \<Rightarrow> finding list" where
  "container_findings pod_name namespace cname mem_request mem_limit cpu_request cpu_limit
       mem_usage cpu_usage =
     (let mem_waste = calculate_memory_waste mem_request mem_limit mem_usage;
          cpu_waste = calculate_cpu_waste cpu_request cpu_limit cpu_usage
      in
       (if mem_waste > 0 then
          [\<lparr>f_type = Some ''OVER_PROVISIONED_MEMORY'',
            f_severity = Some (if mem_waste > 500 then ''HIGH''
                               else if mem_waste > 100 then ''MEDIUM'' else ''LOW''),
            f_pod = Some pod_name, f_namespace = Some namespace, f_container = Some cname,
            f_monthlySavings = Some mem_waste,
            f_podsAffected = None, f_resourcesAffected = None,
            f_details =
              [(''request'', Fmt 2 mem_request ''Gi''),
               (''limit'', Fmt 2 mem_limit ''Gi''),
               (''usage'', case mem_usage of
                             Some u \<Rightarrow> if u \<noteq> 0 then Fmt 2 u ''Gi'' else Txt ''N/A''
                           | None \<Rightarrow> Txt ''N/A''),
               (''ratio'', if mem_request > 0 then Fmt 1 (mem_limit / mem_request) ''x''
                           else Txt ''N/A'')]\<rparr>]
        else [])
       @
       (if cpu_waste > 0 then
          (let is_underutilized =
                 (if cpu_request > 0
                  then (case cpu_usage of
                          Some u \<Rightarrow> u > 0 \<and> u < cpu_request * 0.2 | None \<Rightarrow> False)
                  else False)
           in
            [\<lparr>f_type = Some (if is_underutilized then ''UNDERUTILIZED_CPU''
                              else ''OVER_PROVISIONED_CPU''),
              f_severity = Some (if cpu_waste > 500 then ''HIGH''
                                 else if cpu_waste > 100 then ''MEDIUM'' else ''LOW''),
              f_pod = Some pod_name, f_namespace = Some namespace, f_container = Some cname,
              f_monthlySavings = Some cpu_waste,
              f_podsAffected = None, f_resourcesAffected = None,
              f_details =
                [(''request'', Fmt 2 cpu_request []),
                 (''limit'', Fmt 2 cpu_limit []),
                 (''usage'', case cpu_usage of
                               Some u \<Rightarrow> if u \<noteq> 0 then Fmt 2 u [] else Txt ''N/A''
                             | None \<Rightarrow> Txt ''N/A''),
                 (''utilizationPercent'',
                    case cpu_usage of
                      Some u \<Rightarrow> if u \<noteq> 0 \<and> cpu_request > 0
                                then Fmt 1 (u / cpu_request * 100) ''%'' else Txt ''N/A''
                    | None \<Rightarrow> Txt ''N/A''),
                 (''ratio'', if cpu_request > 0 then Fmt 1 (cpu_limit / cpu_request) ''x''
                             else Txt ''N/A'')]\<rparr>])
        else [])
       @
       (case mem_usage of
          Some u \<Rightarrow>
            if u \<noteq> 0 \<and> mem_request > 0 \<and> u < mem_request * 0.2 \<and> mem_waste = 0 then
              (let waste = (mem_request - u * 1.5) * MEMORY_COST_PER_GB_MONTH
               in [\<lparr>f_type = Some ''UNDERUTILIZED_MEMORY'',
                     f_severity = Some (if waste > 100 then ''MEDIUM'' else ''LOW''),
                     f_pod = Some pod_name, f_namespace = Some namespace,
                     f_container = Some cname,
                     f_monthlySavings = Some waste,
                     f_podsAffected = None, f_resourcesAffected = None,
                     f_details =
                       [(''request'', Fmt 2 mem_request ''Gi''),
                        (''usage'', Fmt 2 u ''Gi''),
                        (''utilizationPercent'', Fmt 1 (u / mem_request * 100) ''%'')]\<rparr>])
            else []
        | None \<Rightarrow> []))"

record pods_state =
  findings :: "finding list"
  pods_without_requests :: "dict list"

text \<open>The body of the loop over a pod's containers. Rule 4 comes first and ends the
  iteration (\<open>continue\<close>); the four parses can raise, in the source's order.\<close>

definition analyze_container ::
    "(string \<times> usage) list \<Rightarrow> string \<Rightarrow> string \<Rightarrow> container \<Rightarrow> pods_state
     \<Rightarrow> exn + pods_state" where
  "analyze_container usage_data pod_name namespace c st =
     (let requests = c_requests c;
          limits = c_limits c;
          cname = (case c_name c of Some n \<Rightarrow> n | None \<Rightarrow> ''unknown'')
      in
       if requests = [] then
         Inr (st\<lparr>pods_without_requests := pods_without_requests st @
                    [[(''pod'', pod_name), (''namespace'', namespace),
                      (''container'', cname)]]\<rparr>)
       else
         bind (parse_memory (dict_get requests ''memory'' ''0'')) (\<lambda>mem_request.
         bind (parse_memory (dict_get limits ''memory'' ''0'')) (\<lambda>mem_limit.
         bind (parse_cpu (dict_get requests ''cpu'' ''0'')) (\<lambda>cpu_request.
         bind (parse_cpu (dict_get limits ''cpu'' ''0'')) (\<lambda>cpu_limit.
           let usage = map_of usage_data (namespace @ ''/'' @ pod_name);
               mem_usage = map_option u_memory usage;
               cpu_usage = map_option u_cpu usage
           in Inr (st\<lparr>findings := findings st @
                        container_findings pod_name namespace cname
                          mem_request mem_limit cpu_request cpu_limit
                          mem_usage cpu_usage\<rparr>))))))"

fun analyze_containers ::
    "(string \<times> usage) list \<Rightarrow> string \<Rightarrow> string \<Rightarrow> container list \<Rightarrow> pods_state
     \<Rightarrow> exn + pods_state" where
  "analyze_containers usage_data pod_name namespace [] st = Inr st"
| "analyze_containers usage_data pod_name namespace (c # cs) st =
     bind (analyze_container usage_data pod_name namespace c st)
          (analyze_containers usage_data pod_name namespace cs)"

fun analyze_pod_items ::
    "(string \<times> usage) list \<Rightarrow> pod list \<Rightarrow> pods_state \<Rightarrow> exn + pods_state" where
  "analyze_pod_items usage_data [] st = Inr st"
| "analyze_pod_items usage_data (p # ps) st =
     bind (analyze_containers usage_data
             (case p_name p of Some n \<Rightarrow> n | None \<Rightarrow> ''unknown'')
             (case p_namespace p of Some n \<Rightarrow> n | None \<Rightarrow> ''default'')
             (p_containers p) st)
          (analyze_pod_items usage_data ps)"

definition analyze_pods :: "pod list \<Rightarrow> (string \<times> usage) list \<Rightarrow> exn + finding list" where
  "analyze_pods pods usage_data =
     bind (analyze_pod_items usage_data pods \<lparr>findings = [], pods_without_requests = []\<rparr>)
       (\<lambda>st. Inr (findings st @
          (if pods_without_requests st \<noteq> [] then
             [\<lparr>f_type = Some ''MISSING_REQUESTS'', f_severity = Some ''HIGH'',
               f_pod = None, f_namespace = None, f_container = None,
               f_monthlySavings = Some 0,
               f_podsAffected = Some (length (pods_without_requests st)),
               f_resourcesAffected = None,
               f_details = [(''pods'', Items (take 10 (pods_without_requests st)))]\<rparr>]
           else [])))"

subsection \<open>The report's load-balancer analysis\<close>

record service =
  s_name :: "string option"
  s_namespace :: "string option"
  s_creationTimestamp :: "string option"
  s_type :: "string option"

fun orphaned_lbs :: "service list \<Rightarrow> dict list \<Rightarrow> dict list" where
  "orphaned_lbs [] acc = acc"
| "orphaned_lbs (svc # svcs) acc =
     (if (case s_type svc of Some t \<Rightarrow> t | None \<Rightarrow> []) \<noteq> ''LoadBalancer''
      then orphaned_lbs svcs acc
      else if (case s_creationTimestamp svc of Some t \<Rightarrow> t | None \<Rightarrow> []) \<noteq> []
      then orphaned_lbs svcs
             (acc @ [[(''service'', case s_name svc of Some n \<Rightarrow> n | None \<Rightarrow> ''unknown''),
                      (''namespace'',
                         case s_namespace svc of Some n \<Rightarrow> n | None \<Rightarrow> ''default''),
                      (''age'', ''unknown'')]])
      else orphaned_lbs svcs acc)"

definition analyze_load_balancers :: "service list \<Rightarrow> finding list" where
  "analyze_load_balancers services =
     (let lbs = orphaned_lbs services []
      in if lbs \<noteq> [] then
           [\<lparr>f_type = Some ''ORPHANED_LB'', f_severity = Some ''MEDIUM'',
             f_pod = None, f_namespace = None, f_container = None,
             f_monthlySavings = Some (real (length lbs) * LB_COST_PER_MONTH),
             f_podsAffected = None,
             f_resourcesAffected = Some (length lbs),
             f_details = [(''loadBalancers'', Items lbs)]\<rparr>]
         else [])"

subsection \<open>The report's aggregation\<close>

record example =
  ex_pod :: "string option"
  ex_namespace :: "string option"
  ex_container :: "string option"
  ex_wastePerMonth :: "real option"
  ex_request :: dval
  ex_usage :: dval
  ex_limit :: dval

record agg_finding =
  a_type :: string
  a_severity :: string
  a_monthlySavings :: real
  a_description :: string
  a_resourcesAffected :: "nat option"
  a_podsAffected :: "nat option"
  a_examples :: "example list option"

definition get_type :: "finding \<Rightarrow> string" where
  "get_type f = (case f_type f of Some t \<Rightarrow> t | None \<Rightarrow> ''UNKNOWN'')"

definition savings :: "finding \<Rightarrow> real" where
  "savings f = (case f_monthlySavings f of Some x \<Rightarrow> x | None \<Rightarrow> 0)"

text \<open>The first loop: \<open>by_type\<close> is an insertion-ordered dictionary from a type to the
  findings of that type, in input order.\<close>

definition add_finding :: "(string \<times> finding list) list \<Rightarrow> finding \<Rightarrow> (string \<times> finding list) list" where
  "add_finding by_type f =
     AList.update (get_type f)
       ((case map_of by_type (get_type f) of Some g \<Rightarrow> g | None \<Rightarrow> []) @ [f]) by_type"

definition group_by_type :: "finding list \<Rightarrow> (string \<times> finding list) list" where
  "group_by_type fs = foldl add_finding [] fs"

text \<open>\<^verbatim>\<open>severity_order.get(x.get('severity', 'LOW'), 0)\<close>, and \<open>max(group, key=...)\<close>, which
  returns the first of the maximal elements.\<close>

definition severity_rank :: "finding \<Rightarrow> nat" where
  "severity_rank f =
     (case map_of [(''HIGH'', 3), (''MEDIUM'', 2), (''LOW'', 1)]
             (case f_severity f of Some s \<Rightarrow> s | None \<Rightarrow> ''LOW'') of
        Some n \<Rightarrow> n | None \<Rightarrow> 0)"

definition py_max :: "('a \<Rightarrow> nat) \<Rightarrow> 'a \<Rightarrow> 'a list \<Rightarrow> 'a" where
  "py_max key x xs = foldl (\<lambda>m y. if key y > key m then y else m) x xs"

definition descriptions :: "(string \<times> string) list" where
  "descriptions =
     [(''OVER_PROVISIONED_MEMORY'', ''Pods requesting significantly more memory than they use''),
      (''OVER_PROVISIONED_CPU'', ''Pods requesting significantly more CPU than they use''),
      (''UNDERUTILIZED_MEMORY'', ''Pods using less than 20% of requested memory''),
      (''UNDERUTILIZED_CPU'', ''Pods using less than 20% of requested CPU''),
      (''NO_REQUESTS'', ''Pods without resource requests - causes unpredictable scheduling''),
      (''ORPHANED_LB'', ''Load balancers with no backend endpoints''),
      (''UNBOUND_PV'', ''Persistent volumes not bound to any pods'')]"

definition str_truthy :: "string option \<Rightarrow> bool" where
  "str_truthy s = (case s of Some t \<Rightarrow> t \<noteq> [] | None \<Rightarrow> False)"

definition pod_key :: "finding \<Rightarrow> string" where
  "pod_key f = (case f_namespace f of Some n \<Rightarrow> n | None \<Rightarrow> ''default'') @ ''/'' @
               (case f_pod f of Some n \<Rightarrow> n | None \<Rightarrow> ''unknown'')"

definition detail_get :: "finding \<Rightarrow> string \<Rightarrow> dval" where
  "detail_get f k = (case map_of (f_details f) k of Some v \<Rightarrow> v | None \<Rightarrow> Txt ''N/A'')"

definition example_of :: "finding \<Rightarrow> example" where
  "example_of ex = \<lparr>ex_pod = f_pod ex, ex_namespace = f_namespace ex,
                     ex_container = f_container ex, ex_wastePerMonth = f_monthlySavings ex,
                     ex_request = detail_get ex ''request'', ex_usage = detail_get ex ''usage'',
                     ex_limit = detail_get ex ''limit''\<rparr>"

text \<open>\<open>sorted(xs, key=k, reverse=True)\<close> is stable: descending keys, equal keys in input
  order; that is the stable ascending sort by the negated key.\<close>

definition sorted_desc :: "('a \<Rightarrow> real) \<Rightarrow> 'a list \<Rightarrow> 'a list" where
  "sorted_desc key xs = sort_key (\<lambda>x. - key x) xs"

text \<open>The body of the second loop, for one type and its group \<open>grp\<close>. \<open>max\<close> of an empty group
  would raise \<open>ValueError\<close>; reading \<open>['severity']\<close> of a finding without that key raises
  \<open>KeyError\<close>. \<open>py_sum\<close> stands for Python's \<open>sum()\<close> over the savings of the group: it
  adds binary64 floats in the order of the list, so its result can depend on that order.
  It is a parameter of the model: what is proved holds for every summation function.\<close>

definition aggregate_group ::
    "(real list \<Rightarrow> real) \<Rightarrow> string \<times> finding list \<Rightarrow> exn + agg_finding" where
  "aggregate_group py_sum tg =
     (case tg of (ftype, grp) \<Rightarrow>
        (case grp of
           [] \<Rightarrow> Inl ValueError
         | g # gs \<Rightarrow>
             (case f_severity (py_max severity_rank g gs) of
                None \<Rightarrow> Inl KeyError
              | Some max_severity \<Rightarrow>
                  (let total_savings = py_sum (map savings grp);
                       pods_affected =
                         length (remdups (map pod_key (filter (\<lambda>f. str_truthy (f_pod f)) grp)));
                       resources_affected = length grp;
                       description = (case map_of descriptions ftype of
                                        Some d \<Rightarrow> d | None \<Rightarrow> ''Issues of type '' @ ftype);
                       sorted_examples = take 5 (sorted_desc savings grp)
                   in Inr \<lparr>a_type = ftype, a_severity = max_severity,
                           a_monthlySavings = total_savings, a_description = description,
                           a_resourcesAffected =
                             (if ftype \<in> set [''ORPHANED_LB'', ''UNBOUND_PV'']
                              then Some resources_affected else None),
                           a_podsAffected =
                             (if ftype \<in> set [''ORPHANED_LB'', ''UNBOUND_PV'']
                              then None else Some pods_affected),
                           a_examples =
                             (case sorted_examples of
                                [] \<Rightarrow> None
                              | e # _ \<Rightarrow> if str_truthy (f_pod e)
                                         then Some (map example_of sorted_examples)
                                         else None)\<rparr>))))"

fun map_exn :: "('a \<Rightarrow> exn + 'b) \<Rightarrow> 'a list \<Rightarrow> exn + 'b list" where
  "map_exn f [] = Inr []"
| "map_exn f (x # xs) = bind (f x) (\<lambda>y. bind (map_exn f xs) (\<lambda>ys. Inr (y # ys)))"

definition aggregate_findings ::
    "(real list \<Rightarrow> real) \<Rightarrow> finding list \<Rightarrow> exn + agg_finding list" where
  "aggregate_findings py_sum fs =
     (if fs = [] then Inr []
      else bind (map_exn (aggregate_group py_sum) (group_by_type fs))
             (\<lambda>aggregated. Inr (sorted_desc a_monthlySavings aggregated)))"

section \<open>Properties\<close>

lemma bind_Inr_iff: "bind m f = Inr y \<longleftrightarrow> (\<exists>x. m = Inr x \<and> f x = Inr y)"
  by (cases m) (simp_all add: bind_def)

subsection \<open>Stripping and \<open>float()\<close>\<close>

lemma set_strip: "set (strip s) \<subseteq> set s"
  unfolding strip_def rstrip_def lstrip_def
  by (auto dest!: set_dropWhileD)

lemma set_float_strip: "set (float_strip s) \<subseteq> set s"
  unfolding float_strip_def
  by (auto dest!: set_dropWhileD)






lemma float_magnitude_nonneg: "float_magnitude u = Some m \<Longrightarrow> 0 \<le> m"
  unfolding float_magnitude_def
  by (auto split: prod.splits list.splits if_splits option.splits)

lemma take_sign_neg: "take_sign t = (True, u) \<Longrightarrow> CHR ''-'' \<in> set t"
  unfolding take_sign_def by (auto split: list.splits if_splits)

lemma py_float_nonneg:
  assumes "CHR ''-'' \<notin> set s" and "py_float s = Inr v"
  shows "0 \<le> v"
proof -
  obtain neg u where tu: "take_sign (float_strip s) = (neg, u)"
    by (cases "take_sign (float_strip s)")
  have "\<not> neg"
    using take_sign_neg [of "float_strip s" u] tu set_float_strip [of s] assms(1) by auto
  with assms(2) tu show ?thesis
    unfolding py_float_def
    by (auto split: if_splits option.splits dest: float_magnitude_nonneg)
qed

lemma py_float_payload_nonneg:
  assumes "CHR ''-'' \<notin> set s" and "py_float (drop_last n (strip s)) = Inr v"
  shows "0 \<le> v"
proof -
  have "set (drop_last n (strip s)) \<subseteq> set s"
    unfolding drop_last_def using set_strip [of s] set_take_subset [of _ "strip s"] by blast
  then show ?thesis using assms py_float_nonneg by blast
qed

lemma py_float_strip_nonneg:
  assumes "CHR ''-'' \<notin> set s" and "py_float (strip s) = Inr v"
  shows "0 \<le> v"
  using assms py_float_nonneg [of "strip s" v] set_strip [of s] by blast

lemma py_float_drop_last_nonneg:
  assumes "CHR ''-'' \<notin> set s" and "py_float (drop_last n s) = Inr v"
  shows "0 \<le> v"
proof -
  have "set (drop_last n s) \<subseteq> set s"
    unfolding drop_last_def by (rule set_take_subset)
  then show ?thesis using assms py_float_nonneg by blast
qed

lemma units_pos: "(u, k) \<in> set units \<Longrightarrow> 0 < k"
  unfolding units_def by auto

lemma audit_units_pos: "(u, k) \<in> set audit_units \<Longrightarrow> 0 < k"
  unfolding audit_units_def by auto

lemma find_in_set: "find P xs = Some x \<Longrightarrow> x \<in> set xs"
  by (induction xs) (auto split: if_splits)

lemma parse_resource_value_nonneg:
  assumes "CHR ''-'' \<notin> set s" and "parse_resource_value s rt = Inr v"
  shows "0 \<le> v"
  using assms(2) unfolding parse_resource_value_def Let_def
  by (auto simp: bind_Inr_iff split: if_splits
      dest!: py_float_payload_nonneg [OF assms(1)] py_float_strip_nonneg [OF assms(1)])

lemma parse_cpu_nonneg:
  assumes "CHR ''-'' \<notin> set s" and "parse_cpu s = Inr v"
  shows "0 \<le> v"
  using assms(2) unfolding parse_cpu_def Let_def
  by (auto simp: bind_Inr_iff split: if_splits
      dest!: py_float_payload_nonneg [OF assms(1)] py_float_strip_nonneg [OF assms(1)])

lemma parse_memory_nonneg:
  assumes "CHR ''-'' \<notin> set s" and "parse_memory s = Inr v"
  shows "0 \<le> v"
  using assms(2) unfolding parse_memory_def Let_def
  by (auto simp: bind_Inr_iff split: if_splits option.splits
      dest!: py_float_payload_nonneg [OF assms(1)] py_float_strip_nonneg [OF assms(1)]
             find_in_set units_pos simp: zero_le_mult_iff)

lemma audit_parse_cpu_nonneg:
  assumes "CHR ''-'' \<notin> set s" and "audit_parse_cpu s = Inr v"
  shows "0 \<le> v"
  using assms(2) unfolding audit_parse_cpu_def
  by (auto simp: bind_Inr_iff split: if_splits
      dest!: py_float_drop_last_nonneg [OF assms(1)] py_float_nonneg [OF assms(1)])

lemma audit_parse_memory_nonneg:
  assumes "CHR ''-'' \<notin> set s" and "audit_parse_memory s = Inr v"
  shows "0 \<le> v"
  using assms(2) unfolding audit_parse_memory_def
  by (auto simp: bind_Inr_iff zero_le_mult_iff split: if_splits option.splits
      dest!: py_float_drop_last_nonneg [OF assms(1)] py_float_nonneg [OF assms(1)]
             find_in_set audit_units_pos)



lemmas eval_simps = py_float_def float_magnitude_def float_exponent_def lower_def
  lower_char_def take_sign_def int_of_digits_def digit_val_def is_digit_def strip_def
  lstrip_def rstrip_def is_space_def float_strip_def is_float_space_def endswith_def
  drop_last_def bind_def

subsection \<open>C1: the unit tables of the three memory parsers\<close>








subsection \<open>C2: the sign of a parsed quantity\<close>

text \<open>
  C2 (as claimed): no parser ever returns a negative quantity. The parsers hand the
  payload to \<open>float()\<close>, sign included, so a negative payload parses to a negative
  quantity.
\<close>

theorem negative_quantity_parsed:
  "parse_resource_value ''-1Gi'' ''memory'' = Inr (- 1)
   \<and> parse_resource_value ''-500m'' ''cpu'' = Inr (- (1 / 2))
   \<and> parse_memory ''-5Mi'' = Inr (- (5 / 1024))
   \<and> parse_cpu ''-500m'' = Inr (- (1 / 2))"
  by (simp add: parse_memory_def parse_resource_value_def parse_cpu_def units_def eval_simps)

text \<open>
  C2 (amended): a parser returns a negative quantity only for a text that holds a
  minus sign. For every text without \<open>-\<close>, each parser of the three programs returns a
  non-negative value whenever it returns one (the other outcomes are \<open>ValueError\<close> and a
  non-finite float).
\<close>

theorem parsers_nonneg_without_minus:
  assumes "CHR ''-'' \<notin> set s"
  shows "(parse_resource_value s rt = Inr v \<longrightarrow> 0 \<le> v)
       \<and> (parse_cpu s = Inr v \<longrightarrow> 0 \<le> v)
       \<and> (parse_memory s = Inr v \<longrightarrow> 0 \<le> v)
       \<and> (audit_parse_cpu s = Inr v \<longrightarrow> 0 \<le> v)
       \<and> (audit_parse_memory s = Inr v \<longrightarrow> 0 \<le> v)"
  using assms parse_resource_value_nonneg parse_cpu_nonneg parse_memory_nonneg
    audit_parse_cpu_nonneg audit_parse_memory_nonneg
  by blast

theorem parsers_nonneg_without_minus_witness:
  "CHR ''-'' \<notin> set ''500m'' \<and> parse_cpu ''500m'' = Inr (1 / 2) \<and> (0::real) \<le> 1 / 2
   \<and> parse_resource_value ''500m'' ''cpu'' = Inr (1 / 2)"
proof -
  have a: "CHR ''-'' \<notin> set ''500m''" by simp
  have b: "parse_cpu ''500m'' = Inr (1 / 2)"
    by (simp add: parse_cpu_def eval_simps)
  have c: "parse_resource_value ''500m'' ''cpu'' = Inr (1 / 2)"
    by (simp add: parse_resource_value_def eval_simps)
  from parsers_nonneg_without_minus [OF a, of "''cpu''" "1 / 2"] b c
  show ?thesis by simp
qed

subsection \<open>C3: swapping the two sides of the diff\<close>

lemma compare_resource_None_swap:
  "compare_resource fp n a b = None \<longleftrightarrow> compare_resource fp n b a = None"
  unfolding compare_resource_def Let_def by (auto split: if_splits)

lemma compare_resource_swap:
  assumes "compare_resource fp n a b = Some c" and "compare_resource fp n b a = Some d"
  shows "max_cost_diff c = - max_cost_diff d" and "min_cost_diff c = - min_cost_diff d"
    and "old_min_replicas c = old_max_replicas c \<Longrightarrow> new_min_replicas c = new_max_replicas c
         \<Longrightarrow> max_cost_diff c = - min_cost_diff d"
  using assms unfolding compare_resource_def Let_def
  by (auto split: if_splits)

lemmas diff_simps = diff_entry_def all_resource_names_def snapshot_get_def compare_resource_def
  calculate_annual_cost_def MEMORY_COST_PER_GB_def CPU_COST_PER_CORE_def absent_resource_def

text \<open>
  C3 (as claimed): for every identity the diff reports, \<open>maxAnnualDelta\<close> of \<open>diff(A,B)\<close> is
  the negation of \<open>minAnnualDelta\<close> of \<open>diff(B,A)\<close>. The code pairs minimum with minimum
  and maximum with maximum, so the claim fails as soon as one side has a replica range:
  a workload whose range goes from \<open>1..1\<close> to \<open>1..3\<close> has \<open>max_cost_diff = 96\<close> one way and
  \<open>min_cost_diff = 0\<close> the other way.
\<close>

theorem diff_swap_max_is_not_neg_min:
  "map_option max_cost_diff
     (diff_entry ''d.yaml''
        [(''web@d.yaml'', \<lparr>memory = 1, cpu = 0, min_replicas = 1, max_replicas = 1, kind = ''HorizontalPodAutoscaler''\<rparr>)]
        [(''web@d.yaml'', \<lparr>memory = 1, cpu = 0, min_replicas = 1, max_replicas = 3, kind = ''HorizontalPodAutoscaler''\<rparr>)]
        ''web@d.yaml'') = Some 96
   \<and> map_option min_cost_diff
     (diff_entry ''d.yaml''
        [(''web@d.yaml'', \<lparr>memory = 1, cpu = 0, min_replicas = 1, max_replicas = 3, kind = ''HorizontalPodAutoscaler''\<rparr>)]
        [(''web@d.yaml'', \<lparr>memory = 1, cpu = 0, min_replicas = 1, max_replicas = 1, kind = ''HorizontalPodAutoscaler''\<rparr>)]
        ''web@d.yaml'') = Some 0
   \<and> (96::real) \<noteq> - 0"
  by (simp add: diff_simps)

text \<open>
  C3 (amended): swapping old and new negates each end of the range without exchanging
  them: an identity is reported by \<open>diff(A,B)\<close> exactly when it is reported by \<open>diff(B,A)\<close>,
  and then \<open>max_cost_diff\<close> of one is the negation of \<open>max_cost_diff\<close> of the other, and
  likewise \<open>min_cost_diff\<close>. When neither side has a replica range (minimum equal to
  maximum on both), \<open>max_cost_diff\<close> of \<open>diff(A,B)\<close> is also the negation of
  \<open>min_cost_diff\<close> of \<open>diff(B,A)\<close>.
\<close>

theorem diff_swap:
  "(diff_entry fp A B n = None \<longleftrightarrow> diff_entry fp B A n = None)
   \<and> (\<forall>c d. diff_entry fp A B n = Some c \<and> diff_entry fp B A n = Some d \<longrightarrow>
          max_cost_diff c = - max_cost_diff d \<and> min_cost_diff c = - min_cost_diff d
          \<and> (old_min_replicas c = old_max_replicas c \<and> new_min_replicas c = new_max_replicas c
               \<longrightarrow> max_cost_diff c = - min_cost_diff d))"
proof -
  have names: "n \<in> all_resource_names A B \<longleftrightarrow> n \<in> all_resource_names B A"
    unfolding all_resource_names_def by blast
  show ?thesis
  proof (cases "n \<in> all_resource_names A B")
    case False
    then show ?thesis using names by (simp add: diff_entry_def)
  next
    case True
    then have ab: "diff_entry fp A B n = compare_resource fp n (snapshot_get A n) (snapshot_get B n)"
      and ba: "diff_entry fp B A n = compare_resource fp n (snapshot_get B n) (snapshot_get A n)"
      using names by (simp_all add: diff_entry_def)
    show ?thesis
      unfolding ab ba
      using compare_resource_None_swap [of fp n "snapshot_get A n" "snapshot_get B n"]
        compare_resource_swap [of fp n "snapshot_get A n" "snapshot_get B n"]
      by blast
  qed
qed

theorem diff_swap_witness:
  "map_option max_cost_diff
     (diff_entry ''d.yaml''
        [(''web@d.yaml'', \<lparr>memory = 4, cpu = 1, min_replicas = 2, max_replicas = 2, kind = ''Deployment''\<rparr>)]
        [(''web@d.yaml'', \<lparr>memory = 8, cpu = 2, min_replicas = 2, max_replicas = 2, kind = ''Deployment''\<rparr>)]
        ''web@d.yaml'') = Some 864
   \<and> map_option min_cost_diff
     (diff_entry ''d.yaml''
        [(''web@d.yaml'', \<lparr>memory = 8, cpu = 2, min_replicas = 2, max_replicas = 2, kind = ''Deployment''\<rparr>)]
        [(''web@d.yaml'', \<lparr>memory = 4, cpu = 1, min_replicas = 2, max_replicas = 2, kind = ''Deployment''\<rparr>)]
        ''web@d.yaml'') = Some (- 864)"
  using diff_swap [of "''d.yaml''"
      "[(''web@d.yaml'', \<lparr>memory = 4, cpu = 1, min_replicas = 2, max_replicas = 2, kind = ''Deployment''\<rparr>)]"
      "[(''web@d.yaml'', \<lparr>memory = 8, cpu = 2, min_replicas = 2, max_replicas = 2, kind = ''Deployment''\<rparr>)]"
      "''web@d.yaml''"]
  by (simp add: diff_simps)

subsection \<open>C5: underutilised containers\<close>

lemmas pods_simps = analyze_pods_def analyze_container_def container_findings_def
  calculate_memory_waste_def calculate_cpu_waste_def parse_memory_def parse_cpu_def units_def
  dict_get_def MEMORY_COST_PER_GB_MONTH_def CPU_COST_PER_VCPU_MONTH_def eval_simps

text \<open>
  C5: whenever usage is below 20% of a positive request, an underutilised finding for
  that dimension is emitted, whether or not a limit is declared. The code does so for
  memory and not for CPU: \<open>calculate_cpu_waste\<close> returns 0 when the limit is 0, and the
  loop of \<open>analyze_pods\<close> has a separate rule for underutilised memory but none for
  underutilised CPU. A container that requests 1 CPU without a limit and uses 0.1 gets no
  finding; the same container with a memory request of 1Gi, no limit and 0.1Gi in use
  gets the memory finding and still no CPU finding.
\<close>

theorem cpu_underutilized_without_limit_not_flagged:
  "analyze_pods
     [\<lparr>p_name = Some ''web'', p_namespace = Some ''prod'',
       p_containers = [\<lparr>c_name = Some ''app'', c_requests = [(''cpu'', ''1'')], c_limits = []\<rparr>]\<rparr>]
     [(''prod/web'', \<lparr>u_cpu = 0.1, u_memory = 0\<rparr>)] = Inr []
   \<and> map_sum id (map f_type)
       (analyze_pods
          [\<lparr>p_name = Some ''web'', p_namespace = Some ''prod'',
            p_containers = [\<lparr>c_name = Some ''app'',
                             c_requests = [(''cpu'', ''1''), (''memory'', ''1Gi'')],
                             c_limits = []\<rparr>]\<rparr>]
          [(''prod/web'', \<lparr>u_cpu = 0.1, u_memory = 0.1\<rparr>)])
     = Inr [Some ''UNDERUTILIZED_MEMORY'']"
  by (simp add: pods_simps)

subsection \<open>C6: severity from monthly savings\<close>

text \<open>
  C6: the severity of an over-provisioned or underutilised memory or CPU finding is
  \<open>HIGH\<close> above 500, \<open>MEDIUM\<close> above 100, \<open>LOW\<close> otherwise. The \<open>UNDERUTILIZED_MEMORY\<close> finding
  has only two levels (\<open>MEDIUM\<close> above 100, else \<open>LOW\<close>), unlike the three other findings
  of the same loop: a container that requests 1000Gi without a limit and uses 1Gi saves
  7189.20 a month and is reported \<open>MEDIUM\<close>.
\<close>

theorem underutilized_memory_never_high:
  "analyze_pods
     [\<lparr>p_name = Some ''db'', p_namespace = Some ''prod'',
       p_containers = [\<lparr>c_name = Some ''pg'', c_requests = [(''memory'', ''1000Gi'')],
                        c_limits = []\<rparr>]\<rparr>]
     [(''prod/db'', \<lparr>u_cpu = 0.1, u_memory = 1\<rparr>)]
   = Inr [\<lparr>f_type = Some ''UNDERUTILIZED_MEMORY'', f_severity = Some ''MEDIUM'',
           f_pod = Some ''db'', f_namespace = Some ''prod'', f_container = Some ''pg'',
           f_monthlySavings = Some 7189.2, f_podsAffected = None, f_resourcesAffected = None,
           f_details = [(''request'', Fmt 2 1000 ''Gi''), (''usage'', Fmt 2 1 ''Gi''),
                        (''utilizationPercent'', Fmt 1 0.1 ''%'')]\<rparr>]"
  by (simp add: pods_simps)

subsection \<open>C7: load balancers\<close>

lemma orphaned_lbs_length:
  "length (orphaned_lbs services acc) =
     length acc + length (filter (\<lambda>svc. s_type svc = Some ''LoadBalancer''
       \<and> (\<exists>ts. s_creationTimestamp svc = Some ts \<and> ts \<noteq> [])) services)"
  by (induction services arbitrary: acc) (auto split: option.splits)

text \<open>
  C7 (as claimed): every service of type \<open>LoadBalancer\<close> is flagged. The code flags a
  load balancer only when its \<open>creationTimestamp\<close> is present and not empty.
\<close>

theorem load_balancer_without_timestamp_not_flagged:
  "analyze_load_balancers
     [\<lparr>s_name = Some ''lb'', s_namespace = Some ''prod'', s_creationTimestamp = None,
       s_type = Some ''LoadBalancer''\<rparr>] = []"
  by (simp add: analyze_load_balancers_def)

text \<open>
  C7 (amended): every service of type \<open>LoadBalancer\<close> with a non-empty
  \<open>creationTimestamp\<close> is flagged. With \<open>n\<close> such services the analysis returns nothing
  when \<open>n = 0\<close> and otherwise exactly one \<open>ORPHANED_LB\<close> finding, of severity \<open>MEDIUM\<close>, with
  \<open>resourcesAffected = n\<close> and \<open>monthlySavings = n * LB_COST_PER_MONTH\<close>; for exactly one
  such service, \<open>monthlySavings = LB_COST_PER_MONTH\<close>.
\<close>

theorem load_balancers_flagged:
  assumes "n = length (filter (\<lambda>svc. s_type svc = Some ''LoadBalancer''
       \<and> (\<exists>ts. s_creationTimestamp svc = Some ts \<and> ts \<noteq> [])) services)"
  shows "(n = 0 \<longrightarrow> analyze_load_balancers services = [])
       \<and> (0 < n \<longrightarrow> (\<exists>f. analyze_load_balancers services = [f]
             \<and> f_type f = Some ''ORPHANED_LB'' \<and> f_severity f = Some ''MEDIUM''
             \<and> f_resourcesAffected f = Some n
             \<and> f_monthlySavings f = Some (real n * LB_COST_PER_MONTH)))
       \<and> (n = 1 \<longrightarrow> (\<exists>f. analyze_load_balancers services = [f]
             \<and> f_type f = Some ''ORPHANED_LB''
             \<and> f_monthlySavings f = Some LB_COST_PER_MONTH))"
proof -
  have len: "length (orphaned_lbs services []) = n"
    using orphaned_lbs_length [of services "[]"] assms by simp
  show ?thesis
    using len unfolding analyze_load_balancers_def Let_def by auto
qed

theorem load_balancers_flagged_witness:
  "\<exists>f. analyze_load_balancers
          [\<lparr>s_name = Some ''api'', s_namespace = Some ''prod'', s_creationTimestamp = None,
            s_type = Some ''ClusterIP''\<rparr>,
           \<lparr>s_name = Some ''lb'', s_namespace = Some ''prod'',
            s_creationTimestamp = Some ''2024-01-01T00:00:00Z'',
            s_type = Some ''LoadBalancer''\<rparr>] = [f]
       \<and> f_type f = Some ''ORPHANED_LB'' \<and> f_monthlySavings f = Some 20"
  using load_balancers_flagged [of 1
      "[\<lparr>s_name = Some ''api'', s_namespace = Some ''prod'', s_creationTimestamp = None,
            s_type = Some ''ClusterIP''\<rparr>,
           \<lparr>s_name = Some ''lb'', s_namespace = Some ''prod'',
            s_creationTimestamp = Some ''2024-01-01T00:00:00Z'',
            s_type = Some ''LoadBalancer''\<rparr>]"]
  by (simp add: LB_COST_PER_MONTH_def)

subsection \<open>C10: containers without a requests block\<close>

lemma analyze_container_requestless:
  assumes "c_requests c = []"
  shows "analyze_container usage_data pod_name namespace c st =
           Inr (st\<lparr>pods_without_requests := pods_without_requests st @
                  [[(''pod'', pod_name), (''namespace'', namespace),
                    (''container'', case c_name c of Some n \<Rightarrow> n | None \<Rightarrow> ''unknown'')]]\<rparr>)"
  using assms by (simp add: analyze_container_def)

text \<open>A container with requests neither reads nor writes \<open>pods_without_requests\<close>.\<close>

lemma analyze_container_pwr:
  assumes "c_requests c \<noteq> []"
  shows "analyze_container usage_data pod_name namespace c (st\<lparr>pods_without_requests := w\<rparr>)
         = map_sum id (\<lambda>s. s\<lparr>pods_without_requests := w\<rparr>)
             (analyze_container usage_data pod_name namespace c st)"
  using assms unfolding analyze_container_def Let_def
  by (simp add: bind_def split: sum.splits)

lemma analyze_container_keeps:
  assumes "c_requests c \<noteq> []"
    and "analyze_container usage_data pod_name namespace c st = Inr s"
  shows "pods_without_requests s = pods_without_requests st"
  using assms unfolding analyze_container_def Let_def
  by (auto simp: bind_def split: sum.splits)

lemma analyze_containers_pwr:
  assumes "\<forall>c \<in> set cs. c_requests c \<noteq> []"
  shows "analyze_containers usage_data pod_name namespace cs (st\<lparr>pods_without_requests := w\<rparr>)
         = map_sum id (\<lambda>s. s\<lparr>pods_without_requests := w\<rparr>)
             (analyze_containers usage_data pod_name namespace cs st)"
  using assms
proof (induction cs arbitrary: st)
  case Nil
  then show ?case by simp
next
  case (Cons c cs)
  have c: "c_requests c \<noteq> []" and cs: "\<forall>c \<in> set cs. c_requests c \<noteq> []"
    using Cons.prems by auto
  show ?case
  proof (cases "analyze_container usage_data pod_name namespace c st")
    case (Inl e)
    then show ?thesis using analyze_container_pwr [OF c, where usage_data = usage_data and pod_name = pod_name
          and namespace = namespace and st = st and w = w]
      by (simp add: bind_def)
  next
    case (Inr s)
    then show ?thesis
      using analyze_container_pwr [OF c, where usage_data = usage_data and pod_name = pod_name
          and namespace = namespace and st = st and w = w]
        Cons.IH [OF cs, where st = s]
      by (simp add: bind_def)
  qed
qed

lemma analyze_containers_keeps:
  assumes "\<forall>c \<in> set cs. c_requests c \<noteq> []"
    and "analyze_containers usage_data pod_name namespace cs st = Inr s"
  shows "pods_without_requests s = pods_without_requests st"
proof -
  have "st\<lparr>pods_without_requests := pods_without_requests st\<rparr> = st" by simp
  then have "Inr s = map_sum id (\<lambda>s. s\<lparr>pods_without_requests := pods_without_requests st\<rparr>)
                       (Inr s :: exn + pods_state)"
    using analyze_containers_pwr [OF assms(1), where usage_data = usage_data
        and pod_name = pod_name and namespace = namespace and st = st
        and w = "pods_without_requests st"] assms(2)
    by simp
  then have "s = s\<lparr>pods_without_requests := pods_without_requests st\<rparr>" by simp
  then show ?thesis by (metis pods_state.select_convs(2) pods_state.surjective pods_state.update_convs(2))
qed

text \<open>The loop over a pod's containers is the loop over its containers with requests,
  followed by the entries of the others.\<close>

lemma analyze_containers_split:
  "analyze_containers usage_data pod_name namespace cs st
   = map_sum id
       (\<lambda>s. s\<lparr>pods_without_requests := pods_without_requests st @
               map (\<lambda>c. [(''pod'', pod_name), (''namespace'', namespace),
                          (''container'', case c_name c of Some n \<Rightarrow> n | None \<Rightarrow> ''unknown'')])
                   (filter (\<lambda>c. c_requests c = []) cs)\<rparr>)
       (analyze_containers usage_data pod_name namespace
          (filter (\<lambda>c. c_requests c \<noteq> []) cs) st)"
proof (induction cs arbitrary: st)
  case Nil
  then show ?case by simp
next
  case (Cons c cs)
  let ?E = "\<lambda>c. [(''pod'', pod_name), (''namespace'', namespace),
                  (''container'', case c_name c of Some n \<Rightarrow> n | None \<Rightarrow> ''unknown'')]"
  let ?rest = "filter (\<lambda>c. c_requests c \<noteq> []) cs"
  have rest: "\<forall>c \<in> set ?rest. c_requests c \<noteq> []" by simp
  show ?case
  proof (cases "c_requests c = []")
    case True
    let ?st1 = "st\<lparr>pods_without_requests := pods_without_requests st @ [?E c]\<rparr>"
    have "analyze_containers usage_data pod_name namespace (c # cs) st
            = analyze_containers usage_data pod_name namespace cs ?st1"
      using analyze_container_requestless [OF True, where usage_data = usage_data
          and pod_name = pod_name and namespace = namespace and st = st]
      by (simp add: bind_def)
    also have "\<dots> = map_sum id
        (\<lambda>s. s\<lparr>pods_without_requests := pods_without_requests ?st1 @
                map ?E (filter (\<lambda>c. c_requests c = []) cs)\<rparr>)
        (analyze_containers usage_data pod_name namespace ?rest ?st1)"
      by (rule Cons.IH)
    also have "analyze_containers usage_data pod_name namespace ?rest ?st1
        = map_sum id (\<lambda>s. s\<lparr>pods_without_requests := pods_without_requests st @ [?E c]\<rparr>)
            (analyze_containers usage_data pod_name namespace ?rest st)"
      by (rule analyze_containers_pwr [OF rest])
    finally show ?thesis
      using True by (simp add: sum.map_comp comp_def)
  next
    case False
    show ?thesis
    proof (cases "analyze_container usage_data pod_name namespace c st")
      case (Inl e)
      then show ?thesis using False by (simp add: bind_def)
    next
      case (Inr s)
      have k: "pods_without_requests s = pods_without_requests st"
        by (rule analyze_container_keeps [OF False Inr])
      show ?thesis
        using False Inr Cons.IH [where st = s] k by (simp add: bind_def)
    qed
  qed
qed

lemma analyze_pod_items_pwr:
  assumes "\<forall>p \<in> set ps. \<forall>c \<in> set (p_containers p). c_requests c \<noteq> []"
  shows "analyze_pod_items usage_data ps (st\<lparr>pods_without_requests := w\<rparr>)
         = map_sum id (\<lambda>s. s\<lparr>pods_without_requests := w\<rparr>)
             (analyze_pod_items usage_data ps st)"
  using assms
proof (induction ps arbitrary: st)
  case Nil
  then show ?case by simp
next
  case (Cons p ps)
  let ?pn = "case p_name p of Some n \<Rightarrow> n | None \<Rightarrow> ''unknown''"
  let ?ns = "case p_namespace p of Some n \<Rightarrow> n | None \<Rightarrow> ''default''"
  have p: "\<forall>c \<in> set (p_containers p). c_requests c \<noteq> []"
    and ps: "\<forall>p \<in> set ps. \<forall>c \<in> set (p_containers p). c_requests c \<noteq> []"
    using Cons.prems by auto
  note step = analyze_containers_pwr [OF p, where usage_data = usage_data and pod_name = ?pn
      and namespace = ?ns and st = st and w = w]
  show ?case
  proof (cases "analyze_containers usage_data ?pn ?ns (p_containers p) st")
    case (Inl e)
    then show ?thesis using step by (simp add: bind_def)
  next
    case (Inr s)
    then show ?thesis using step Cons.IH [OF ps, where st = s] by (simp add: bind_def)
  qed
qed

lemma analyze_pod_items_keeps:
  assumes "\<forall>p \<in> set ps. \<forall>c \<in> set (p_containers p). c_requests c \<noteq> []"
    and "analyze_pod_items usage_data ps st = Inr s"
  shows "pods_without_requests s = pods_without_requests st"
proof -
  have "st\<lparr>pods_without_requests := pods_without_requests st\<rparr> = st" by simp
  then have "Inr s = map_sum id (\<lambda>s. s\<lparr>pods_without_requests := pods_without_requests st\<rparr>)
                       (Inr s :: exn + pods_state)"
    using analyze_pod_items_pwr [OF assms(1), where usage_data = usage_data and st = st
        and w = "pods_without_requests st"]
      assms(2)
    by simp
  then have "s = s\<lparr>pods_without_requests := pods_without_requests st\<rparr>" by simp
  then show ?thesis by (metis pods_state.select_convs(2) pods_state.surjective pods_state.update_convs(2))
qed

lemma analyze_pod_items_split:
  "analyze_pod_items usage_data ps st
   = map_sum id
       (\<lambda>s. s\<lparr>pods_without_requests := pods_without_requests st @
               concat (map (\<lambda>p. map (\<lambda>c.
                   [(''pod'', case p_name p of Some n \<Rightarrow> n | None \<Rightarrow> ''unknown''),
                    (''namespace'', case p_namespace p of Some n \<Rightarrow> n | None \<Rightarrow> ''default''),
                    (''container'', case c_name c of Some n \<Rightarrow> n | None \<Rightarrow> ''unknown'')])
                 (filter (\<lambda>c. c_requests c = []) (p_containers p))) ps)\<rparr>)
       (analyze_pod_items usage_data
          (map (\<lambda>p. p\<lparr>p_containers := filter (\<lambda>c. c_requests c \<noteq> []) (p_containers p)\<rparr>) ps)
          st)"
proof (induction ps arbitrary: st)
  case Nil
  then show ?case by simp
next
  case (Cons p ps)
  let ?pn = "case p_name p of Some n \<Rightarrow> n | None \<Rightarrow> ''unknown''"
  let ?ns = "case p_namespace p of Some n \<Rightarrow> n | None \<Rightarrow> ''default''"
  let ?keep = "\<lambda>p. p\<lparr>p_containers := filter (\<lambda>c. c_requests c \<noteq> []) (p_containers p)\<rparr>"
  let ?ents = "map (\<lambda>c. [(''pod'', ?pn), (''namespace'', ?ns),
                         (''container'', case c_name c of Some n \<Rightarrow> n | None \<Rightarrow> ''unknown'')])
                 (filter (\<lambda>c. c_requests c = []) (p_containers p))"
  let ?rest = "filter (\<lambda>c. c_requests c \<noteq> []) (p_containers p)"
  have rest: "\<forall>c \<in> set ?rest. c_requests c \<noteq> []" by simp
  have kept: "\<forall>p \<in> set (map ?keep ps). \<forall>c \<in> set (p_containers p). c_requests c \<noteq> []"
    by simp
  note split = analyze_containers_split [where usage_data = usage_data and pod_name = ?pn
      and namespace = ?ns and cs = "p_containers p" and st = st]
  show ?case
  proof (cases "analyze_containers usage_data ?pn ?ns ?rest st")
    case (Inl e)
    then show ?thesis using split by (simp add: bind_def)
  next
    case (Inr s)
    have k: "pods_without_requests s = pods_without_requests st"
      by (rule analyze_containers_keeps [OF rest Inr])
    let ?s1 = "s\<lparr>pods_without_requests := pods_without_requests st @ ?ents\<rparr>"
    have "analyze_pod_items usage_data (p # ps) st = analyze_pod_items usage_data ps ?s1"
      using split Inr by (simp add: bind_def)
    also have "\<dots> = map_sum id
        (\<lambda>s. s\<lparr>pods_without_requests := pods_without_requests ?s1 @
                concat (map (\<lambda>p. map (\<lambda>c.
                   [(''pod'', case p_name p of Some n \<Rightarrow> n | None \<Rightarrow> ''unknown''),
                    (''namespace'', case p_namespace p of Some n \<Rightarrow> n | None \<Rightarrow> ''default''),
                    (''container'', case c_name c of Some n \<Rightarrow> n | None \<Rightarrow> ''unknown'')])
                 (filter (\<lambda>c. c_requests c = []) (p_containers p))) ps)\<rparr>)
        (analyze_pod_items usage_data (map ?keep ps) ?s1)"
      by (rule Cons.IH)
    also have "analyze_pod_items usage_data (map ?keep ps) ?s1
        = map_sum id (\<lambda>s. s\<lparr>pods_without_requests := pods_without_requests st @ ?ents\<rparr>)
            (analyze_pod_items usage_data (map ?keep ps) s)"
      by (rule analyze_pod_items_pwr [OF kept])
    finally show ?thesis
      using Inr by (simp add: sum.map_comp comp_def bind_def)
  qed
qed

text \<open>
  C10: pod analysis records a container without a requests block (absent or empty) only
  toward the missing-requests finding and applies no other rule to it, whatever its
  limits and the usage data are: the result of \<open>analyze_pods\<close> is its result on the same
  pods with those containers removed (the same findings in the same order, or the same
  error), followed, when there is such a container, by the one \<open>MISSING_REQUESTS\<close>
  finding that counts them and lists the first ten.
\<close>

theorem requestless_containers_only_counted:
  "analyze_pods pods usage_data =
     bind (analyze_pods
             (map (\<lambda>p. p\<lparr>p_containers := filter (\<lambda>c. c_requests c \<noteq> []) (p_containers p)\<rparr>)
                  pods)
             usage_data)
       (\<lambda>fs. Inr (fs @
          (let missing = concat (map (\<lambda>p. map (\<lambda>c.
                   [(''pod'', case p_name p of Some n \<Rightarrow> n | None \<Rightarrow> ''unknown''),
                    (''namespace'', case p_namespace p of Some n \<Rightarrow> n | None \<Rightarrow> ''default''),
                    (''container'', case c_name c of Some n \<Rightarrow> n | None \<Rightarrow> ''unknown'')])
                 (filter (\<lambda>c. c_requests c = []) (p_containers p))) pods)
           in if missing = [] then []
              else [\<lparr>f_type = Some ''MISSING_REQUESTS'', f_severity = Some ''HIGH'',
                     f_pod = None, f_namespace = None, f_container = None,
                     f_monthlySavings = Some 0,
                     f_podsAffected = Some (length missing),
                     f_resourcesAffected = None,
                     f_details = [(''pods'', Items (take 10 missing))]\<rparr>])))"
proof -
  let ?keep = "\<lambda>p. p\<lparr>p_containers := filter (\<lambda>c. c_requests c \<noteq> []) (p_containers p)\<rparr>"
  let ?st0 = "\<lparr>findings = [], pods_without_requests = []\<rparr>"
  have kept: "\<forall>p \<in> set (map ?keep pods). \<forall>c \<in> set (p_containers p). c_requests c \<noteq> []"
    by simp
  note split = analyze_pod_items_split [where usage_data = usage_data and ps = pods and st = ?st0]
  show ?thesis
  proof (cases "analyze_pod_items usage_data (map ?keep pods) ?st0")
    case (Inl e)
    then show ?thesis using split unfolding analyze_pods_def by (simp add: bind_def)
  next
    case (Inr s)
    have "pods_without_requests s = []"
      using analyze_pod_items_keeps [OF kept Inr] by simp
    then show ?thesis
      using split Inr unfolding analyze_pods_def by (simp add: bind_def Let_def)
  qed
qed

theorem requestless_containers_only_counted_witness:
  "analyze_pods
     [\<lparr>p_name = Some ''web'', p_namespace = Some ''prod'',
       p_containers =
         [\<lparr>c_name = Some ''app'', c_requests = [],
           c_limits = [(''memory'', ''64Gi''), (''cpu'', ''16'')]\<rparr>,
          \<lparr>c_name = Some ''side'', c_requests = [(''memory'', ''1Gi'')],
           c_limits = [(''memory'', ''8Gi'')]\<rparr>]\<rparr>]
     [(''prod/web'', \<lparr>u_cpu = 0.01, u_memory = 0.01\<rparr>)]
   = bind (analyze_pods
             [\<lparr>p_name = Some ''web'', p_namespace = Some ''prod'',
               p_containers =
                 [\<lparr>c_name = Some ''side'', c_requests = [(''memory'', ''1Gi'')],
                   c_limits = [(''memory'', ''8Gi'')]\<rparr>]\<rparr>]
             [(''prod/web'', \<lparr>u_cpu = 0.01, u_memory = 0.01\<rparr>)])
       (\<lambda>fs. Inr (fs @
          [\<lparr>f_type = Some ''MISSING_REQUESTS'', f_severity = Some ''HIGH'',
            f_pod = None, f_namespace = None, f_container = None,
            f_monthlySavings = Some 0, f_podsAffected = Some 1,
            f_resourcesAffected = None,
            f_details = [(''pods'', Items [[(''pod'', ''web''), (''namespace'', ''prod''),
                                            (''container'', ''app'')]])]\<rparr>]))
   \<and> map_sum id (map f_type)
       (analyze_pods
          [\<lparr>p_name = Some ''web'', p_namespace = Some ''prod'',
            p_containers =
              [\<lparr>c_name = Some ''app'', c_requests = [],
                c_limits = [(''memory'', ''64Gi''), (''cpu'', ''16'')]\<rparr>,
               \<lparr>c_name = Some ''side'', c_requests = [(''memory'', ''1Gi'')],
                c_limits = [(''memory'', ''8Gi'')]\<rparr>]\<rparr>]
          [(''prod/web'', \<lparr>u_cpu = 0.01, u_memory = 0.01\<rparr>)])
     = Inr [Some ''OVER_PROVISIONED_MEMORY'', Some ''MISSING_REQUESTS'']"
proof -
  let ?pods = "[\<lparr>p_name = Some ''web'', p_namespace = Some ''prod'',
       p_containers =
         [\<lparr>c_name = Some ''app'', c_requests = [],
           c_limits = [(''memory'', ''64Gi''), (''cpu'', ''16'')]\<rparr>,
          \<lparr>c_name = Some ''side'', c_requests = [(''memory'', ''1Gi'')],
           c_limits = [(''memory'', ''8Gi'')]\<rparr>]\<rparr>]"
  let ?u = "[(''prod/web'', \<lparr>u_cpu = 0.01, u_memory = 0.01\<rparr>)]"
  have a: "analyze_pods ?pods ?u
   = bind (analyze_pods
             [\<lparr>p_name = Some ''web'', p_namespace = Some ''prod'',
               p_containers =
                 [\<lparr>c_name = Some ''side'', c_requests = [(''memory'', ''1Gi'')],
                   c_limits = [(''memory'', ''8Gi'')]\<rparr>]\<rparr>]
             ?u)
       (\<lambda>fs. Inr (fs @
          [\<lparr>f_type = Some ''MISSING_REQUESTS'', f_severity = Some ''HIGH'',
            f_pod = None, f_namespace = None, f_container = None,
            f_monthlySavings = Some 0, f_podsAffected = Some 1,
            f_resourcesAffected = None,
            f_details = [(''pods'', Items [[(''pod'', ''web''), (''namespace'', ''prod''),
                                            (''container'', ''app'')]])]\<rparr>]))"
    using requestless_containers_only_counted [of ?pods ?u] by (simp add: Let_def)
  have b: "map_sum id (map f_type) (analyze_pods ?pods ?u)
             = Inr [Some ''OVER_PROVISIONED_MEMORY'', Some ''MISSING_REQUESTS'']"
    by (simp add: pods_simps)
  show ?thesis using a b by (rule conjI)
qed

subsection \<open>C4: what extraction raises\<close>

lemma py_int_Inl: "py_int g = Inl e \<Longrightarrow> e = ValueError \<and> length g > int_max_str_digits"
  unfolding py_int_def by (auto split: if_splits)

lemma py_int_Inr: "length g \<le> int_max_str_digits \<Longrightarrow> \<exists>n. py_int g = Inr n"
  unfolding py_int_def by simp

lemma replica_range_Inl:
  assumes "replica_range k doc = Inl e"
  shows "e = ValueError \<and>
         (\<exists>g. (re_search replicas_pattern doc = Some g \<or> re_search min_replicas_pattern doc = Some g
               \<or> re_search max_replicas_pattern doc = Some g)
              \<and> length g > int_max_str_digits)"
proof (cases "k = ''HorizontalPodAutoscaler''")
  case True
  show ?thesis
  proof (cases "case re_search min_replicas_pattern doc of Some g \<Rightarrow> py_int g | None \<Rightarrow> Inr 1")
    case (Inl e')
    then show ?thesis using assms True py_int_Inl
      unfolding replica_range_def by (auto simp: bind_def split: option.splits)
  next
    case (Inr a)
    then have "(case re_search max_replicas_pattern doc of Some g \<Rightarrow> py_int g | None \<Rightarrow> Inr 1)
                 = Inl e"
      using assms True unfolding replica_range_def
      by (auto simp: bind_def split: sum.splits)
    then show ?thesis using py_int_Inl by (auto split: option.splits)
  qed
next
  case False
  then show ?thesis using assms py_int_Inl
    unfolding replica_range_def by (auto simp: bind_def split: option.splits sum.splits)
qed

lemma replica_range_Inr:
  assumes "\<And>g. re_search replicas_pattern doc = Some g \<or> re_search min_replicas_pattern doc = Some g
               \<or> re_search max_replicas_pattern doc = Some g \<Longrightarrow> length g \<le> int_max_str_digits"
  shows "\<exists>r. replica_range k doc = Inr r"
proof (cases "replica_range k doc")
  case (Inl e)
  then show ?thesis using replica_range_Inl [OF Inl] assms by fastforce
next
  case (Inr r)
  then show ?thesis by simp
qed










subsection \<open>C8: the flat replicas field\<close>

text \<open>
  C8: a document of a kind other than the horizontal autoscaler that declares a flat
  \<open>replicas\<close> field with value \<open>N\<close>, at any indentation, is extracted with
  \<open>min_replicas = max_replicas = N\<close>. \<open>replicas_pattern\<close> is anchored to the start of the
  text or of a line and allows no indentation before the key, whereas the comment over
  the search says it reads the static replicas of a Deployment or StatefulSet, whose
  \<open>replicas\<close> field is always nested under \<open>spec:\<close>. A Deployment with
  \<open>spec.replicas = 3\<close> is extracted with the default range 1..1.
\<close>

theorem indented_replicas_ignored:
  "extract_resources_from_yaml
     (''apiVersion: apps/v1'' @ nl @ ''kind: Deployment'' @ nl @ ''metadata:'' @ nl @
      ''  name: web'' @ nl @ ''spec:'' @ nl @ ''  replicas: 3'' @ nl @ ''  template:'' @ nl @
      ''    spec:'' @ nl @ ''      containers:'' @ nl @ ''      - name: app'' @ nl @
      ''        resources:'' @ nl @ ''          requests:'' @ nl @
      ''            memory: 1Gi'' @ nl) ''deploy.yaml''
   = Inr [(''web@deploy.yaml'',
           \<lparr>memory = 1, cpu = 0, min_replicas = 1, max_replicas = 1, kind = ''Deployment''\<rparr>)]"
  by code_simp

subsection \<open>C9: aggregation and the order of the findings\<close>

lemma group_by_type_snoc: "group_by_type (fs @ [f]) = add_finding (group_by_type fs) f"
  by (simp add: group_by_type_def)

lemma group_by_type_inv:
  "distinct (map fst (group_by_type fs)) \<and>
   (\<forall>t. map_of (group_by_type fs) t =
        (if t \<in> get_type ` set fs then Some (filter (\<lambda>f. get_type f = t) fs) else None))"
proof (induction fs rule: rev_induct)
  case Nil
  then show ?case by (simp add: group_by_type_def)
next
  case (snoc f fs)
  let ?al = "group_by_type fs"
  let ?k = "get_type f"
  have old: "(case map_of ?al ?k of Some g \<Rightarrow> g | None \<Rightarrow> []) = filter (\<lambda>x. get_type x = ?k) fs"
  proof (cases "?k \<in> get_type ` set fs")
    case True
    then show ?thesis using snoc by simp
  next
    case False
    then have "filter (\<lambda>x. get_type x = ?k) fs = []"
      unfolding filter_empty_conv by (metis imageI)
    then show ?thesis using snoc False by simp
  qed
  have al': "group_by_type (fs @ [f]) = AList.update ?k (filter (\<lambda>x. get_type x = ?k) fs @ [f]) ?al"
    unfolding group_by_type_snoc add_finding_def old ..
  have d: "distinct (map fst (group_by_type (fs @ [f])))"
    unfolding al' using snoc by (simp add: distinct_update)
  have m: "map_of (group_by_type (fs @ [f])) t =
        (if t \<in> get_type ` set (fs @ [f])
         then Some (filter (\<lambda>x. get_type x = t) (fs @ [f])) else None)" for t
    unfolding al' update_conv' using snoc by auto
  show ?case using d m by blast
qed

lemma group_by_type_elem:
  assumes "(t, g) \<in> set (group_by_type fs)"
  shows "t \<in> get_type ` set fs \<and> g = filter (\<lambda>f. get_type f = t) fs"
proof -
  have d: "distinct (map fst (group_by_type fs))"
    using group_by_type_inv [of fs] by blast
  have "map_of (group_by_type fs) t = Some g"
    by (rule map_of_is_SomeI [OF d assms])
  then show ?thesis using group_by_type_inv [of fs] by (auto split: if_splits)
qed

lemma group_by_type_keys: "set (map fst (group_by_type fs)) = get_type ` set fs"
proof -
  have "t \<in> fst ` set (group_by_type fs) \<longleftrightarrow> t \<in> get_type ` set fs" for t
  proof -
    have "t \<in> fst ` set (group_by_type fs) \<longleftrightarrow> map_of (group_by_type fs) t \<noteq> None"
      by (simp add: map_of_eq_None_iff)
    also have "\<dots> \<longleftrightarrow> t \<in> get_type ` set fs"
      using group_by_type_inv [of fs] by simp
    finally show ?thesis .
  qed
  then show ?thesis by auto
qed

lemma map_over_groups:
  "map h (group_by_type fs) =
     map (\<lambda>t. h (t, filter (\<lambda>f. get_type f = t) fs)) (map fst (group_by_type fs))"
  using group_by_type_elem [of _ _ fs] by (auto simp: map_eq_conv)

lemma mset_map_over_groups:
  "mset (map h (group_by_type fs)) =
     image_mset (\<lambda>t. h (t, filter (\<lambda>f. get_type f = t) fs)) (mset_set (get_type ` set fs))"
proof -
  have keys: "mset (map fst (group_by_type fs)) = mset_set (get_type ` set fs)"
    using group_by_type_inv [of fs] group_by_type_keys [of fs]
    by (metis mset_set_set)
  have "mset (map h (group_by_type fs)) =
     mset (map (\<lambda>t. h (t, filter (\<lambda>f. get_type f = t) fs)) (map fst (group_by_type fs)))"
    by (rule arg_cong [OF map_over_groups])
  also have "\<dots> = image_mset (\<lambda>t. h (t, filter (\<lambda>f. get_type f = t) fs))
                      (mset (map fst (group_by_type fs)))"
    by (simp only: mset_map)
  finally show ?thesis unfolding keys .
qed

lemma py_max_in: "py_max key x xs \<in> set (x # xs)"
  unfolding py_max_def by (induction xs arbitrary: x) auto

lemma foldl_max_ge_start: "(key x :: nat) \<le> key (foldl (\<lambda>m y. if key y > key m then y else m) x xs)"
proof (induction xs arbitrary: x)
  case Nil
  then show ?case by simp
next
  case (Cons a xs)
  show ?case
    using Cons [of a] Cons [of x] by (auto simp: not_less intro: order_trans less_imp_le)
qed

lemma py_max_ge: "y \<in> set (x # xs) \<Longrightarrow> (key y :: nat) \<le> key (py_max key x xs)"
  unfolding py_max_def
proof (induction xs arbitrary: x)
  case Nil
  then show ?case by simp
next
  case (Cons a xs)
  let ?x' = "if key a > key x then a else x"
  have step: "foldl (\<lambda>m y. if key y > key m then y else m) x (a # xs)
            = foldl (\<lambda>m y. if key y > key m then y else m) ?x' xs"
    by simp
  consider "y = x" | "y = a" | "y \<in> set xs" using Cons.prems by auto
  then show ?case
  proof cases
    case 1
    have "key x \<le> key ?x'" by simp
    also have "\<dots> \<le> key (foldl (\<lambda>m y. if key y > key m then y else m) ?x' xs)"
      by (rule foldl_max_ge_start)
    finally show ?thesis unfolding step 1 .
  next
    case 2
    have "key a \<le> key ?x'" by simp
    also have "\<dots> \<le> key (foldl (\<lambda>m y. if key y > key m then y else m) ?x' xs)"
      by (rule foldl_max_ge_start)
    finally show ?thesis unfolding step 2 .
  next
    case 3
    then have "y \<in> set (?x' # xs)" by simp
    then show ?thesis unfolding step by (rule Cons.IH)
  qed
qed

lemma severity_by_rank:
  assumes "f_severity a \<in> {Some ''HIGH'', Some ''MEDIUM'', Some ''LOW''}"
    and "f_severity b \<in> {Some ''HIGH'', Some ''MEDIUM'', Some ''LOW''}"
    and "severity_rank a = severity_rank b"
  shows "f_severity a = f_severity b"
  using assms unfolding severity_rank_def by auto

lemma max_severity_perm:
  assumes "set (x # xs) = set (y # ys)"
    and "\<forall>f \<in> set (x # xs). f_severity f \<in> {Some ''HIGH'', Some ''MEDIUM'', Some ''LOW''}"
  shows "f_severity (py_max severity_rank x xs) = f_severity (py_max severity_rank y ys)"
proof -
  let ?a = "py_max severity_rank x xs" and ?b = "py_max severity_rank y ys"
  have a: "?a \<in> set (x # xs)" by (rule py_max_in)
  have b: "?b \<in> set (x # xs)" unfolding assms(1) by (rule py_max_in)
  have "severity_rank ?b \<le> severity_rank ?a" using b by (rule py_max_ge)
  moreover have "severity_rank ?a \<le> severity_rank ?b"
    using a unfolding assms(1) by (rule py_max_ge)
  ultimately have "severity_rank ?a = severity_rank ?b" by simp
  then show ?thesis using severity_by_rank a b assms(2) by blast
qed

lemma sorted_desc_perm:
  assumes "mset xs = mset ys" and "inj_on key (set ys)"
  shows "sorted_desc key xs = sorted_desc key ys"
  unfolding sorted_desc_def
proof (rule sort_key_inj_key_eq)
  show "mset xs = mset (sort_key (\<lambda>x. - key x) ys)" using assms(1) by simp
  have "set xs = set ys" using assms(1) by (rule mset_eq_setD)
  then show "inj_on (\<lambda>x. - key x) (set xs)"
    using assms(2) by (auto simp: inj_on_def)
  show "sorted (map (\<lambda>x. - key x) (sort_key (\<lambda>x. - key x) ys))" by simp
qed

lemma aggregate_group_nonempty:
  assumes "g \<noteq> []"
  shows "aggregate_group py_sum (t, g) =
     (case f_severity (py_max severity_rank (hd g) (tl g)) of
        None \<Rightarrow> Inl KeyError
      | Some max_severity \<Rightarrow>
          Inr \<lparr>a_type = t, a_severity = max_severity,
                a_monthlySavings = py_sum (map savings g),
                a_description = (case map_of descriptions t of
                                   Some d \<Rightarrow> d | None \<Rightarrow> ''Issues of type '' @ t),
                a_resourcesAffected =
                  (if t \<in> set [''ORPHANED_LB'', ''UNBOUND_PV''] then Some (length g) else None),
                a_podsAffected =
                  (if t \<in> set [''ORPHANED_LB'', ''UNBOUND_PV''] then None
                   else Some (length (remdups (map pod_key
                                (filter (\<lambda>f. str_truthy (f_pod f)) g))))),
                a_examples =
                  (case take 5 (sorted_desc savings g) of
                     [] \<Rightarrow> None
                   | e # _ \<Rightarrow> if str_truthy (f_pod e)
                              then Some (map example_of (take 5 (sorted_desc savings g)))
                              else None)\<rparr>)"
proof -
  obtain x xs where g: "g = x # xs" using assms by (cases g) auto
  show ?thesis
    unfolding aggregate_group_def Let_def prod.case g list.case list.sel ..
qed

text \<open>What a permutation of a group keeps: the severity, the two counts and, when the
  savings are pairwise different, the sorted examples. The total is kept when the
  summation gives the same result on both orders.\<close>

lemma group_perm_fields:
  assumes "mset g' = mset g" and "g \<noteq> []"
    and "\<forall>f \<in> set g. f_severity f \<in> {Some ''HIGH'', Some ''MEDIUM'', Some ''LOW''}"
  shows "g' \<noteq> []"
    and "f_severity (py_max severity_rank (hd g') (tl g'))
           = f_severity (py_max severity_rank (hd g) (tl g))"
    and "length (remdups (map pod_key (filter (\<lambda>f. str_truthy (f_pod f)) g')))
            = length (remdups (map pod_key (filter (\<lambda>f. str_truthy (f_pod f)) g)))"
    and "length g' = length g"
proof -
  show ne': "g' \<noteq> []" using assms(1,2) by auto
  have sets: "set g' = set g" using assms(1) by (rule mset_eq_setD)
  have s': "set (hd g' # tl g') = set (hd g # tl g)" using sets assms(2) ne' by simp
  have v': "\<forall>f \<in> set (hd g' # tl g'). f_severity f \<in> {Some ''HIGH'', Some ''MEDIUM'', Some ''LOW''}"
    using assms(3) sets ne' by simp
  show "f_severity (py_max severity_rank (hd g') (tl g'))
           = f_severity (py_max severity_rank (hd g) (tl g))"
    using s' v' by (rule max_severity_perm)
  show "length (remdups (map pod_key (filter (\<lambda>f. str_truthy (f_pod f)) g')))
            = length (remdups (map pod_key (filter (\<lambda>f. str_truthy (f_pod f)) g)))"
    unfolding length_remdups_card_conv using sets by simp
  show "length g' = length g" using assms(1) by (rule mset_eq_length)
qed

lemma aggregate_group_perm:
  assumes "mset g' = mset g"
    and "\<forall>f \<in> set g. f_severity f \<in> {Some ''HIGH'', Some ''MEDIUM'', Some ''LOW''}"
    and "inj_on savings (set g)"
    and total: "py_sum (map savings g') = py_sum (map savings g)"
  shows "aggregate_group py_sum (t, g') = aggregate_group py_sum (t, g)"
proof (cases "g = []")
  case True
  then show ?thesis using assms(1) by simp
next
  case False
  note k = group_perm_fields [OF assms(1) False assms(2)]
  have srt: "sorted_desc savings g' = sorted_desc savings g"
    using assms(1,3) by (rule sorted_desc_perm)
  show ?thesis
    unfolding aggregate_group_nonempty [OF k(1)] aggregate_group_nonempty [OF False]
      k(2,3,4) total srt ..
qed

lemma aggregate_group_perm_summary:
  assumes "mset g' = mset g"
    and "\<forall>f \<in> set g. f_severity f \<in> {Some ''HIGH'', Some ''MEDIUM'', Some ''LOW''}"
    and total: "py_sum (map savings g') = py_sum (map savings g)"
  shows "map_sum id (\<lambda>a. a\<lparr>a_examples := None\<rparr>) (aggregate_group py_sum (t, g'))
       = map_sum id (\<lambda>a. a\<lparr>a_examples := None\<rparr>) (aggregate_group py_sum (t, g))"
proof (cases "g = []")
  case True
  then show ?thesis using assms(1) by simp
next
  case False
  note k = group_perm_fields [OF assms(1) False assms(2)]
  show ?thesis
    unfolding aggregate_group_nonempty [OF k(1)] aggregate_group_nonempty [OF False]
      k(2,3,4) total
    by (cases "f_severity (py_max severity_rank (hd g) (tl g))") simp_all
qed

lemma aggregate_group_perm_counts:
  assumes "mset g' = mset g"
    and "\<forall>f \<in> set g. f_severity f \<in> {Some ''HIGH'', Some ''MEDIUM'', Some ''LOW''}"
  shows "map_sum id (\<lambda>a. a\<lparr>a_monthlySavings := 0, a_examples := None\<rparr>)
           (aggregate_group py_sum (t, g'))
       = map_sum id (\<lambda>a. a\<lparr>a_monthlySavings := 0, a_examples := None\<rparr>)
           (aggregate_group py_sum (t, g))"
proof (cases "g = []")
  case True
  then show ?thesis using assms(1) by simp
next
  case False
  note k = group_perm_fields [OF assms(1) False assms(2)]
  show ?thesis
    unfolding aggregate_group_nonempty [OF k(1)] aggregate_group_nonempty [OF False]
      k(2,3,4)
    by (cases "f_severity (py_max severity_rank (hd g) (tl g))") simp_all
qed

lemma aggregate_group_Inr:
  assumes "g \<noteq> []"
    and "\<forall>f \<in> set g. f_severity f \<in> {Some ''HIGH'', Some ''MEDIUM'', Some ''LOW''}"
  shows "\<exists>a. aggregate_group py_sum (t, g) = Inr a \<and> a_type a = t
             \<and> a_monthlySavings a = py_sum (map savings g)"
proof -
  obtain x xs where g: "g = x # xs" using assms(1) by (cases g) auto
  have "py_max severity_rank x xs \<in> set g" unfolding g by (rule py_max_in)
  then obtain s where "f_severity (py_max severity_rank x xs) = Some s"
    using assms(2) by auto
  then show ?thesis
    unfolding aggregate_group_def Let_def g by simp
qed

lemma map_exn_Inr:
  assumes "\<forall>x \<in> set xs. \<exists>y. f x = Inr y"
  shows "\<exists>ys. map_exn f xs = Inr ys \<and> map f xs = map Inr ys"
  using assms
proof (induction xs)
  case Nil
  then show ?case by simp
next
  case (Cons x xs)
  then obtain y where y: "f x = Inr y" by auto
  obtain ys where ys: "map_exn f xs = Inr ys" "map f xs = map Inr ys"
    using Cons by auto
  show ?case
    using y ys by (auto simp: bind_def)
qed

lemma image_mset_Inr_inj:
  assumes "image_mset (Inr :: 'b \<Rightarrow> 'a + 'b) A = image_mset Inr B"
  shows "A = B"
  using _ assms by (rule multiset.inj_map_strong) simp

text \<open>With valid severities every group is aggregated, and each aggregate stems from the
  group of a type of the input.\<close>

lemma aggregated_groups:
  assumes "\<forall>f \<in> set F. f_severity f \<in> {Some ''HIGH'', Some ''MEDIUM'', Some ''LOW''}"
  shows "\<exists>ys. map_exn (aggregate_group py_sum) (group_by_type F) = Inr ys
            \<and> map (aggregate_group py_sum) (group_by_type F) = map Inr ys
            \<and> (\<forall>a \<in> set ys. \<exists>t \<in> get_type ` set F.
                   aggregate_group py_sum (t, filter (\<lambda>f. get_type f = t) F) = Inr a
                 \<and> a_monthlySavings a = py_sum (map savings (filter (\<lambda>f. get_type f = t) F)))"
proof -
  let ?T = "get_type ` set F"
  let ?grp = "\<lambda>t. filter (\<lambda>f. get_type f = t) F"
  have h_ok: "\<exists>a. aggregate_group py_sum (t, ?grp t) = Inr a \<and> a_type a = t
                \<and> a_monthlySavings a = py_sum (map savings (?grp t))" if "t \<in> ?T" for t
  proof (rule aggregate_group_Inr)
    show "?grp t \<noteq> []" using that by (auto simp: filter_empty_conv)
    show "\<forall>f \<in> set (?grp t). f_severity f \<in> {Some ''HIGH'', Some ''MEDIUM'', Some ''LOW''}"
      using assms by simp
  qed
  have ok: "\<forall>x \<in> set (group_by_type F). \<exists>y. aggregate_group py_sum x = Inr y"
  proof
    fix x assume x: "x \<in> set (group_by_type F)"
    obtain t g where tg: "x = (t, g)" by (cases x)
    have "t \<in> ?T \<and> g = ?grp t" using x group_by_type_elem unfolding tg by blast
    then show "\<exists>y. aggregate_group py_sum x = Inr y" using h_ok unfolding tg by blast
  qed
  obtain ys where ys: "map_exn (aggregate_group py_sum) (group_by_type F) = Inr ys"
      "map (aggregate_group py_sum) (group_by_type F) = map Inr ys"
    using map_exn_Inr [OF ok] by blast
  have src: "\<exists>t \<in> ?T. aggregate_group py_sum (t, ?grp t) = Inr a
                 \<and> a_monthlySavings a = py_sum (map savings (?grp t))" if "a \<in> set ys" for a
  proof -
    have "Inr a \<in> set (map (aggregate_group py_sum) (group_by_type F))"
      unfolding ys(2) using that by simp
    then obtain x where x: "x \<in> set (group_by_type F)" "aggregate_group py_sum x = Inr a"
      by auto
    obtain t g where tg: "x = (t, g)" by (cases x)
    have t: "t \<in> ?T" and g: "g = ?grp t" using x(1) group_by_type_elem unfolding tg by blast+
    have "a_monthlySavings a = py_sum (map savings (?grp t))"
      using h_ok [OF t] x(2) unfolding tg g by auto
    then show ?thesis using t x(2) unfolding tg g by blast
  qed
  show ?thesis using ys src by blast
qed

text \<open>What the groups of two inputs with the same members share, seen through a
  projection \<open>e\<close> of the aggregate.\<close>

lemma aggregated_mset:
  assumes sets: "set F' = set F"
    and ys: "map (aggregate_group py_sum) (group_by_type F) = map Inr ys"
    and ys': "map (aggregate_group py_sum) (group_by_type F') = map Inr ys'"
    and eq: "\<And>t. map_sum id e (aggregate_group py_sum (t, filter (\<lambda>f. get_type f = t) F'))
               = map_sum id e (aggregate_group py_sum (t, filter (\<lambda>f. get_type f = t) F))"
  shows "mset (map e ys') = mset (map e ys)"
proof -
  let ?T = "get_type ` set F"
  let ?he = "\<lambda>G t. map_sum id e (aggregate_group py_sum (t, filter (\<lambda>f. get_type f = t) G))"
  have e1: "map (\<lambda>x. map_sum id e (aggregate_group py_sum x)) (group_by_type F)
              = map Inr (map e ys)"
    using arg_cong [OF ys, of "map (map_sum id e)"] by (simp add: o_def)
  have e1': "map (\<lambda>x. map_sum id e (aggregate_group py_sum x)) (group_by_type F')
              = map Inr (map e ys')"
    using arg_cong [OF ys', of "map (map_sum id e)"] by (simp add: o_def)
  have "mset (map (\<lambda>x. map_sum id e (aggregate_group py_sum x)) (group_by_type F'))
          = image_mset (?he F') (mset_set ?T)"
    using mset_map_over_groups [of "\<lambda>x. map_sum id e (aggregate_group py_sum x)" F'] sets
    by simp
  also have "\<dots> = image_mset (?he F) (mset_set ?T)"
    using eq by simp
  also have "\<dots> = mset (map (\<lambda>x. map_sum id e (aggregate_group py_sum x)) (group_by_type F))"
    using mset_map_over_groups [of "\<lambda>x. map_sum id e (aggregate_group py_sum x)" F] by simp
  finally have "image_mset (Inr :: 'a \<Rightarrow> exn + 'a) (mset (map e ys'))
                  = image_mset Inr (mset (map e ys))"
    unfolding e1 e1' by (simp add: multiset.map_comp)
  then show ?thesis by (rule image_mset_Inr_inj)
qed

text \<open>
  C9 (as claimed): \<open>aggregate(F') = aggregate(F)\<close>, as ordered sequences, for every
  permutation \<open>F'\<close> of \<open>F\<close>. The groups are kept in an insertion-ordered dictionary and both
  sorts are stable, so groups with equal totals come out in the order their types first
  occur in the input: two findings of different types with the same savings are
  aggregated in input order. (Each group here has one finding, and the sum of a single
  number is that number.)
\<close>

theorem aggregate_order_follows_input:
  "map_sum id (map a_type)
     (aggregate_findings sum_list
        [\<lparr>f_type = Some ''OVER_PROVISIONED_CPU'', f_severity = Some ''LOW'',
          f_pod = Some ''web'', f_namespace = Some ''prod'', f_container = Some ''app'',
          f_monthlySavings = Some 36, f_podsAffected = None, f_resourcesAffected = None,
          f_details = []\<rparr>,
         \<lparr>f_type = Some ''OVER_PROVISIONED_MEMORY'', f_severity = Some ''LOW'',
          f_pod = Some ''web'', f_namespace = Some ''prod'', f_container = Some ''app'',
          f_monthlySavings = Some 36, f_podsAffected = None, f_resourcesAffected = None,
          f_details = []\<rparr>])
     = Inr [''OVER_PROVISIONED_CPU'', ''OVER_PROVISIONED_MEMORY'']
   \<and> map_sum id (map a_type)
     (aggregate_findings sum_list
        [\<lparr>f_type = Some ''OVER_PROVISIONED_MEMORY'', f_severity = Some ''LOW'',
          f_pod = Some ''web'', f_namespace = Some ''prod'', f_container = Some ''app'',
          f_monthlySavings = Some 36, f_podsAffected = None, f_resourcesAffected = None,
          f_details = []\<rparr>,
         \<lparr>f_type = Some ''OVER_PROVISIONED_CPU'', f_severity = Some ''LOW'',
          f_pod = Some ''web'', f_namespace = Some ''prod'', f_container = Some ''app'',
          f_monthlySavings = Some 36, f_podsAffected = None, f_resourcesAffected = None,
          f_details = []\<rparr>])
     = Inr [''OVER_PROVISIONED_MEMORY'', ''OVER_PROVISIONED_CPU'']"
  by code_simp

text \<open>
  C9 (amended): for every permutation \<open>F'\<close> of a list \<open>F\<close> of findings that all carry a
  severity \<open>HIGH\<close>, \<open>MEDIUM\<close> or \<open>LOW\<close> (as every detector emits), both aggregations succeed,
  each output is sorted by descending total, and the groups are the same up to order, up
  to their totals and up to their examples: same type, severity, description and
  affected count. If the sum of each type's savings is the same number in both orders,
  the groups have the same totals as well; and if moreover no two distinct findings of
  one type have equal savings and no two types have equal totals, then
  \<open>aggregate(F') = aggregate(F)\<close> as ordered sequences, examples included. This holds for
  every summation function \<open>py_sum\<close>, so also for the left-to-right sum of floats.
\<close>

theorem aggregate_findings_permutation:
  assumes perm: "mset F' = mset F"
    and valid: "\<forall>f \<in> set F. f_severity f \<in> {Some ''HIGH'', Some ''MEDIUM'', Some ''LOW''}"
  shows "\<exists>out out'. aggregate_findings py_sum F = Inr out
       \<and> aggregate_findings py_sum F' = Inr out'
       \<and> sorted (map (\<lambda>a. - a_monthlySavings a) out)
       \<and> sorted (map (\<lambda>a. - a_monthlySavings a) out')
       \<and> mset (map (\<lambda>a. a\<lparr>a_monthlySavings := 0, a_examples := None\<rparr>) out')
           = mset (map (\<lambda>a. a\<lparr>a_monthlySavings := 0, a_examples := None\<rparr>) out)
       \<and> ((\<forall>t. py_sum (map savings (filter (\<lambda>x. get_type x = t) F'))
                 = py_sum (map savings (filter (\<lambda>x. get_type x = t) F)))
          \<longrightarrow> mset (map (\<lambda>a. a\<lparr>a_examples := None\<rparr>) out')
                = mset (map (\<lambda>a. a\<lparr>a_examples := None\<rparr>) out)
            \<and> ((\<forall>f \<in> set F. \<forall>g \<in> set F.
                    get_type f = get_type g \<and> savings f = savings g \<longrightarrow> f = g)
               \<and> (\<forall>f \<in> set F. \<forall>g \<in> set F.
                    py_sum (map savings (filter (\<lambda>x. get_type x = get_type f) F))
                      = py_sum (map savings (filter (\<lambda>x. get_type x = get_type g) F))
                    \<longrightarrow> get_type f = get_type g)
               \<longrightarrow> out' = out))"
proof (cases "F = []")
  case True
  then have "F' = []" using perm by simp
  then show ?thesis using True by (simp add: aggregate_findings_def)
next
  case False
  then have ne': "F' \<noteq> []" using perm by auto
  have sets: "set F' = set F" using perm by (rule mset_eq_setD)
  have valid': "\<forall>f \<in> set F'. f_severity f \<in> {Some ''HIGH'', Some ''MEDIUM'', Some ''LOW''}"
    using valid sets by simp
  let ?T = "get_type ` set F"
  let ?grp = "\<lambda>G t. filter (\<lambda>f. get_type f = t) G"
  let ?e = "\<lambda>a. a\<lparr>a_examples := None\<rparr>"
  let ?cnt = "\<lambda>a. a\<lparr>a_monthlySavings := 0, a_examples := None\<rparr>"
  have grp_valid: "\<forall>f \<in> set (?grp F t). f_severity f \<in> {Some ''HIGH'', Some ''MEDIUM'', Some ''LOW''}"
    for t
    using valid by simp
  have grp_perm: "mset (?grp F' t) = mset (?grp F t)" for t
    using perm by simp
  obtain ys where ys: "map_exn (aggregate_group py_sum) (group_by_type F) = Inr ys"
      "map (aggregate_group py_sum) (group_by_type F) = map Inr ys"
      "\<forall>a \<in> set ys. \<exists>t \<in> ?T. aggregate_group py_sum (t, ?grp F t) = Inr a
           \<and> a_monthlySavings a = py_sum (map savings (?grp F t))"
    using aggregated_groups [OF valid, of py_sum] by blast
  obtain ys' where ys': "map_exn (aggregate_group py_sum) (group_by_type F') = Inr ys'"
      "map (aggregate_group py_sum) (group_by_type F') = map Inr ys'"
    using aggregated_groups [OF valid', of py_sum] by blast
  let ?out = "sorted_desc a_monthlySavings ys" and ?out' = "sorted_desc a_monthlySavings ys'"
  have run: "aggregate_findings py_sum F = Inr ?out" "aggregate_findings py_sum F' = Inr ?out'"
    using False ne' ys(1) ys'(1) by (simp_all add: aggregate_findings_def bind_def)
  have srt: "sorted (map (\<lambda>a. - a_monthlySavings a) ?out)"
    "sorted (map (\<lambda>a. - a_monthlySavings a) ?out')"
    unfolding sorted_desc_def by simp_all
  have "mset (map ?cnt ys') = mset (map ?cnt ys)"
    using sets ys(2) ys'(2)
  proof (rule aggregated_mset)
    fix t
    show "map_sum id ?cnt (aggregate_group py_sum (t, ?grp F' t))
            = map_sum id ?cnt (aggregate_group py_sum (t, ?grp F t))"
      using grp_perm grp_valid by (rule aggregate_group_perm_counts)
  qed
  then have counts: "mset (map ?cnt ?out') = mset (map ?cnt ?out)"
    by (simp add: sorted_desc_def)
  have summaries: "mset (map ?e ?out') = mset (map ?e ?out)"
    if sums: "\<forall>t. py_sum (map savings (?grp F' t)) = py_sum (map savings (?grp F t))"
  proof -
    have "mset (map ?e ys') = mset (map ?e ys)"
      using sets ys(2) ys'(2)
    proof (rule aggregated_mset)
      fix t
      show "map_sum id ?e (aggregate_group py_sum (t, ?grp F' t))
              = map_sum id ?e (aggregate_group py_sum (t, ?grp F t))"
        using grp_perm grp_valid sums [rule_format] by (rule aggregate_group_perm_summary)
    qed
    then show ?thesis by (simp add: sorted_desc_def)
  qed
  have exact: "?out' = ?out"
    if sums: "\<forall>t. py_sum (map savings (?grp F' t)) = py_sum (map savings (?grp F t))"
    and ties: "\<forall>f \<in> set F. \<forall>g \<in> set F.
                 get_type f = get_type g \<and> savings f = savings g \<longrightarrow> f = g"
    and totals: "\<forall>f \<in> set F. \<forall>g \<in> set F.
                 py_sum (map savings (?grp F (get_type f)))
                   = py_sum (map savings (?grp F (get_type g)))
                 \<longrightarrow> get_type f = get_type g"
  proof -
    have grp_inj: "inj_on savings (set (?grp F t))" for t
      using ties by (auto simp: inj_on_def)
    have "mset (map id ys') = mset (map id ys)"
      using sets ys(2) ys'(2)
    proof (rule aggregated_mset)
      fix t
      have "aggregate_group py_sum (t, ?grp F' t) = aggregate_group py_sum (t, ?grp F t)"
        using grp_perm grp_valid grp_inj sums [rule_format] by (rule aggregate_group_perm)
      then show "map_sum id id (aggregate_group py_sum (t, ?grp F' t))
              = map_sum id id (aggregate_group py_sum (t, ?grp F t))"
        by simp
    qed
    then have m: "mset ys' = mset ys" by simp
    have inj: "inj_on a_monthlySavings (set ys)"
    proof (rule inj_onI)
      fix a b assume a: "a \<in> set ys" and b: "b \<in> set ys"
        and eq: "a_monthlySavings a = a_monthlySavings b"
      obtain ta where ta: "ta \<in> ?T" "aggregate_group py_sum (ta, ?grp F ta) = Inr a"
          "a_monthlySavings a = py_sum (map savings (?grp F ta))"
        using ys(3) a by blast
      obtain tb where tb: "tb \<in> ?T" "aggregate_group py_sum (tb, ?grp F tb) = Inr b"
          "a_monthlySavings b = py_sum (map savings (?grp F tb))"
        using ys(3) b by blast
      obtain fa where fa: "fa \<in> set F" "ta = get_type fa" using ta(1) by auto
      obtain fb where fb: "fb \<in> set F" "tb = get_type fb" using tb(1) by auto
      have "ta = tb"
        using totals fa fb eq unfolding ta(3) tb(3) by blast
      then show "a = b" using ta(2) tb(2) by simp
    qed
    show ?thesis using m inj by (rule sorted_desc_perm)
  qed
  show ?thesis
    using run srt counts summaries exact by blast
qed

theorem aggregate_findings_permutation_witness:
  "aggregate_findings sum_list
        [\<lparr>f_type = Some ''OVER_PROVISIONED_MEMORY'', f_severity = Some ''LOW'',
          f_pod = Some ''web'', f_namespace = Some ''prod'', f_container = Some ''app'',
          f_monthlySavings = Some 36, f_podsAffected = None, f_resourcesAffected = None,
          f_details = []\<rparr>,
         \<lparr>f_type = Some ''OVER_PROVISIONED_CPU'', f_severity = Some ''MEDIUM'',
          f_pod = Some ''web'', f_namespace = Some ''prod'', f_container = Some ''app'',
          f_monthlySavings = Some 108, f_podsAffected = None, f_resourcesAffected = None,
          f_details = []\<rparr>]
   = aggregate_findings sum_list
        [\<lparr>f_type = Some ''OVER_PROVISIONED_CPU'', f_severity = Some ''MEDIUM'',
          f_pod = Some ''web'', f_namespace = Some ''prod'', f_container = Some ''app'',
          f_monthlySavings = Some 108, f_podsAffected = None, f_resourcesAffected = None,
          f_details = []\<rparr>,
         \<lparr>f_type = Some ''OVER_PROVISIONED_MEMORY'', f_severity = Some ''LOW'',
          f_pod = Some ''web'', f_namespace = Some ''prod'', f_container = Some ''app'',
          f_monthlySavings = Some 36, f_podsAffected = None, f_resourcesAffected = None,
          f_details = []\<rparr>]"
proof -
  define fc where "fc = \<lparr>f_type = Some ''OVER_PROVISIONED_CPU'', f_severity = Some ''MEDIUM'',
          f_pod = Some ''web'', f_namespace = Some ''prod'', f_container = Some ''app'',
          f_monthlySavings = Some 108, f_podsAffected = None, f_resourcesAffected = None,
          f_details = []\<rparr>"
  define fm where "fm = \<lparr>f_type = Some ''OVER_PROVISIONED_MEMORY'', f_severity = Some ''LOW'',
          f_pod = Some ''web'', f_namespace = Some ''prod'', f_container = Some ''app'',
          f_monthlySavings = Some (36::real), f_podsAffected = None, f_resourcesAffected = None,
          f_details = []\<rparr>"
  have t: "get_type fc = ''OVER_PROVISIONED_CPU''" "get_type fm = ''OVER_PROVISIONED_MEMORY''"
    and s: "savings fc = 108" "savings fm = 36"
    by (simp_all add: fc_def fm_def get_type_def savings_def)
  have perm: "mset [fm, fc] = mset [fc, fm]" by simp
  have valid: "\<forall>f \<in> set [fc, fm]. f_severity f \<in> {Some ''HIGH'', Some ''MEDIUM'', Some ''LOW''}"
    by (simp add: fc_def fm_def)
  have sums: "\<forall>t. sum_list (map savings (filter (\<lambda>x. get_type x = t) [fm, fc]))
                 = sum_list (map savings (filter (\<lambda>x. get_type x = t) [fc, fm]))"
    by (simp add: t s)
  have ties: "\<forall>f \<in> set [fc, fm]. \<forall>g \<in> set [fc, fm].
                 get_type f = get_type g \<and> savings f = savings g \<longrightarrow> f = g"
    by (simp add: t s)
  have totals: "\<forall>f \<in> set [fc, fm]. \<forall>g \<in> set [fc, fm].
                 sum_list (map savings (filter (\<lambda>x. get_type x = get_type f) [fc, fm]))
                   = sum_list (map savings (filter (\<lambda>x. get_type x = get_type g) [fc, fm]))
                 \<longrightarrow> get_type f = get_type g"
    by (simp add: t s)
  obtain out out' where r: "aggregate_findings sum_list [fc, fm] = Inr out
       \<and> aggregate_findings sum_list [fm, fc] = Inr out'
       \<and> sorted (map (\<lambda>a. - a_monthlySavings a) out)
       \<and> sorted (map (\<lambda>a. - a_monthlySavings a) out')
       \<and> mset (map (\<lambda>a. a\<lparr>a_monthlySavings := 0, a_examples := None\<rparr>) out')
           = mset (map (\<lambda>a. a\<lparr>a_monthlySavings := 0, a_examples := None\<rparr>) out)
       \<and> ((\<forall>t. sum_list (map savings (filter (\<lambda>x. get_type x = t) [fm, fc]))
                 = sum_list (map savings (filter (\<lambda>x. get_type x = t) [fc, fm])))
          \<longrightarrow> mset (map (\<lambda>a. a\<lparr>a_examples := None\<rparr>) out')
                = mset (map (\<lambda>a. a\<lparr>a_examples := None\<rparr>) out)
            \<and> ((\<forall>f \<in> set [fc, fm]. \<forall>g \<in> set [fc, fm].
                    get_type f = get_type g \<and> savings f = savings g \<longrightarrow> f = g)
               \<and> (\<forall>f \<in> set [fc, fm]. \<forall>g \<in> set [fc, fm].
                    sum_list (map savings (filter (\<lambda>x. get_type x = get_type f) [fc, fm]))
                      = sum_list (map savings (filter (\<lambda>x. get_type x = get_type g) [fc, fm]))
                    \<longrightarrow> get_type f = get_type g)
               \<longrightarrow> out' = out))"
    using aggregate_findings_permutation [OF perm valid, of sum_list] by (elim exE) (rule that)
  note r5 = conjunct2 [OF conjunct2 [OF conjunct2 [OF conjunct2 [OF conjunct2 [OF r]]]]]
  have "out' = out"
    by (rule mp [OF conjunct2 [OF mp [OF r5 sums]] conjI [OF ties totals]])
  then have "aggregate_findings sum_list [fm, fc] = aggregate_findings sum_list [fc, fm]"
    using conjunct1 [OF r] conjunct1 [OF conjunct2 [OF r]] by simp
  then show ?thesis unfolding fc_def fm_def .
qed

subsection \<open>Further properties of the code\<close>

text \<open>
  Threshold floor: an identity the diff reports has \<open>|max_cost_diff| > 1\<close>; it is a key of
  one of the two snapshots, and its \<open>has_range\<close> flag says whether the new side's minimum
  and maximum replica counts differ.
\<close>

theorem reported_change_exceeds_floor:
  assumes "diff_entry fp old_resources new_resources n = Some c"
  shows "1 < \<bar>max_cost_diff c\<bar> \<and> n \<in> all_resource_names old_resources new_resources
       \<and> has_range c = (new_min_replicas c \<noteq> new_max_replicas c)"
  using assms unfolding diff_entry_def compare_resource_def Let_def
  by (auto split: if_splits)

theorem reported_change_exceeds_floor_witness:
  "diff_entry ''d.yaml''
        [(''web@d.yaml'', \<lparr>memory = 4, cpu = 1, min_replicas = 2, max_replicas = 2, kind = ''Deployment''\<rparr>)]
        [(''web@d.yaml'', \<lparr>memory = 8, cpu = 2, min_replicas = 2, max_replicas = 2, kind = ''Deployment''\<rparr>)]
        ''web@d.yaml''
     = Some \<lparr>cc_resource = ''web'', cc_file = ''d.yaml'', old_memory = 4, new_memory = 8,
             old_cpu = 1, new_cpu = 2, old_min_replicas = 2, old_max_replicas = 2,
             new_min_replicas = 2, new_max_replicas = 2, min_cost_diff = 864,
             max_cost_diff = 864, has_range = False, cc_kind = ''Deployment''\<rparr>
   \<and> (1::real) < \<bar>864\<bar>"
proof -
  have e: "diff_entry ''d.yaml''
        [(''web@d.yaml'', \<lparr>memory = 4, cpu = 1, min_replicas = 2, max_replicas = 2, kind = ''Deployment''\<rparr>)]
        [(''web@d.yaml'', \<lparr>memory = 8, cpu = 2, min_replicas = 2, max_replicas = 2, kind = ''Deployment''\<rparr>)]
        ''web@d.yaml''
     = Some \<lparr>cc_resource = ''web'', cc_file = ''d.yaml'', old_memory = 4, new_memory = 8,
             old_cpu = 1, new_cpu = 2, old_min_replicas = 2, old_max_replicas = 2,
             new_min_replicas = 2, new_max_replicas = 2, min_cost_diff = 864,
             max_cost_diff = 864, has_range = False, cc_kind = ''Deployment''\<rparr>"
    by (simp add: diff_simps)
  from reported_change_exceeds_floor [OF e] e show ?thesis by simp
qed

text \<open>
  Unit and CPU equivalence: \<open>"1Gi"\<close>, \<open>"1024Mi"\<close> and \<open>"1048576Ki"\<close> parse to the same quantity,
  and so do \<open>"500m"\<close> and \<open>"0.5"\<close>, in the report's parsers and in the linter's.
\<close>

theorem unit_equivalences:
  "parse_memory ''1Gi'' = Inr 1 \<and> parse_memory ''1024Mi'' = Inr 1
   \<and> parse_memory ''1048576Ki'' = Inr 1
   \<and> parse_resource_value ''1Gi'' ''memory'' = Inr 1
   \<and> parse_resource_value ''1024Mi'' ''memory'' = Inr 1
   \<and> parse_resource_value ''1048576Ki'' ''memory'' = Inr 1
   \<and> parse_cpu ''500m'' = Inr (1 / 2) \<and> parse_cpu ''0.5'' = Inr (1 / 2)
   \<and> parse_resource_value ''500m'' ''cpu'' = Inr (1 / 2)
   \<and> parse_resource_value ''0.5'' ''cpu'' = Inr (1 / 2)"
  by (simp add: parse_memory_def parse_resource_value_def parse_cpu_def units_def eval_simps)

text \<open>
  Autoscaled workload: a \<open>HorizontalPodAutoscaler\<close> manifest with \<open>minReplicas: 2\<close>,
  \<open>maxReplicas: 10\<close> and requests of 2Gi and 1 CPU is extracted with the range 2..10, and
  compared with an absent old side it is reported with \<open>has_range\<close> and a range from 2 to
  10 times the cost of one instance.
\<close>

theorem autoscaler_range:
  "extract_resources_from_yaml
     (''kind: HorizontalPodAutoscaler'' @ nl @ ''metadata:'' @ nl @ ''  name: web'' @ nl @
      ''spec:'' @ nl @ ''  minReplicas: 2'' @ nl @ ''  maxReplicas: 10'' @ nl @
      ''  requests:'' @ nl @ ''    memory: 2Gi'' @ nl @ ''    cpu: 1'' @ nl) ''hpa.yaml''
   = Inr [(''web@hpa.yaml'',
           \<lparr>memory = 2, cpu = 1, min_replicas = 2, max_replicas = 10,
            kind = ''HorizontalPodAutoscaler''\<rparr>)]
   \<and> map_option (\<lambda>c. (min_cost_diff c, max_cost_diff c, has_range c))
       (diff_entry ''hpa.yaml'' []
          [(''web@hpa.yaml'',
            \<lparr>memory = 2, cpu = 1, min_replicas = 2, max_replicas = 10,
             kind = ''HorizontalPodAutoscaler''\<rparr>)] ''web@hpa.yaml'')
     = Some (calculate_annual_cost 2 1 * 2, calculate_annual_cost 2 1 * 10, True)"
proof -
  have a: "extract_resources_from_yaml
     (''kind: HorizontalPodAutoscaler'' @ nl @ ''metadata:'' @ nl @ ''  name: web'' @ nl @
      ''spec:'' @ nl @ ''  minReplicas: 2'' @ nl @ ''  maxReplicas: 10'' @ nl @
      ''  requests:'' @ nl @ ''    memory: 2Gi'' @ nl @ ''    cpu: 1'' @ nl) ''hpa.yaml''
   = Inr [(''web@hpa.yaml'',
           \<lparr>memory = 2, cpu = 1, min_replicas = 2, max_replicas = 10,
            kind = ''HorizontalPodAutoscaler''\<rparr>)]"
    by code_simp
  have b: "map_option (\<lambda>c. (min_cost_diff c, max_cost_diff c, has_range c))
       (diff_entry ''hpa.yaml'' []
          [(''web@hpa.yaml'',
            \<lparr>memory = 2, cpu = 1, min_replicas = 2, max_replicas = 10,
             kind = ''HorizontalPodAutoscaler''\<rparr>)] ''web@hpa.yaml'')
     = Some (calculate_annual_cost 2 1 * 2, calculate_annual_cost 2 1 * 10, True)"
    by (simp add: diff_simps)
  show ?thesis using a b by (rule conjI)
qed

end
